theory Spec2Isabelle
  imports Main "HOL-Library.AList"
begin

section \<open>Conventions\<close>

text \<open>
  The development embeds the relationship graph, the per-record cache and the fetch
  manager of the data library. Source names are kept. A leading underscore of a
  source name cannot start an Isabelle name, so every leading underscore becomes a
  trailing prime: the field \<^verbatim>\<open>_state\<close> is \<open>state'\<close>, the field \<^verbatim>\<open>__data\<close> is
  \<open>data''\<close> and its lazy getter \<^verbatim>\<open>_data\<close> is \<open>data'\<close>. A name that clashes with a
  constant of HOL or with a keyword of Isabelle gets the suffix \<open>_of\<close>
  (\<open>id_of\<close>, \<open>identifier_of\<close>) or a longer name (\<open>record_identifier\<close>).

  \<^verbatim>\<open>assert\<close> of \<^verbatim>\<open>@ember/debug\<close> is modelled as it behaves in a debug build: a failed
  assertion raises, and the raise is a value of the type \<open>fatal\<close>.
\<close>

section \<open>JavaScript values and objects\<close>

text \<open>
  Attribute values are \<^verbatim>\<open>any\<close>. The sources compare them with \<^verbatim>\<open>===\<close> and test them
  against \<^verbatim>\<open>undefined\<close>, so the value type has \<open>Undefined\<close>, \<open>Null\<close>, and \<open>NaN\<close> (the one
  value that is not \<^verbatim>\<open>===\<close> to itself). Numbers other than \<open>NaN\<close> stand as integers; an
  object is its reference.
\<close>

datatype jsval = Undefined | Null | JBool bool | JNum int | JNaN | JStr string | JObj nat

definition strict_eq :: "jsval \<Rightarrow> jsval \<Rightarrow> bool" where
  "strict_eq a b = (a = b \<and> a \<noteq> JNaN)"

text \<open>
  The three buckets are objects made by \<^verbatim>\<open>Object.create(null)\<close>: own properties only,
  kept in insertion order (attribute names are not array indices). \<open>has_key\<close> is
  \<^verbatim>\<open>key in obj\<close>, \<open>get_prop\<close> is \<^verbatim>\<open>obj[key]\<close>, \<open>AList.update\<close> is \<^verbatim>\<open>obj[key] = v\<close> and
  \<open>AList.delete\<close> is \<^verbatim>\<open>delete obj[key]\<close>.
\<close>

type_synonym hash = "(string \<times> jsval) list"

definition has_key :: "string \<Rightarrow> hash \<Rightarrow> bool" where
  "has_key k h = (map_of h k \<noteq> None)"

definition get_prop :: "hash \<Rightarrow> string \<Rightarrow> jsval" where
  "get_prop h k = (case map_of h k of None \<Rightarrow> Undefined | Some v \<Rightarrow> v)"

definition Object_keys :: "hash \<Rightarrow> string list" where
  "Object_keys h = map fst h"

text \<open>\<^verbatim>\<open>Object.assign(target, source)\<close>: every own key of the source is read and written.\<close>

definition Object_assign :: "hash \<Rightarrow> hash \<Rightarrow> hash" where
  "Object_assign target source =
     fold (\<lambda>k t. AList.update k (get_prop source k) t) (Object_keys source) target"

text \<open>
  The own properties of an object that may be \<^verbatim>\<open>null\<close> or \<^verbatim>\<open>undefined\<close>: then there are
  none. This is how \<^verbatim>\<open>Object.assign\<close> and the spread read such a source, and what a
  bucket of the cache holds.
\<close>

definition bucket :: "hash option \<Rightarrow> hash" where
  "bucket b = (case b of None \<Rightarrow> [] | Some h \<Rightarrow> h)"

section \<open>Identifiers\<close>

text \<open>
  A stable record identifier \<^verbatim>\<open>{type, id, lid}\<close>. The identifier cache interns
  identifiers, one per \<^verbatim>\<open>lid\<close>; JavaScript compares them by reference. Here they
  are compared by value, and a theorem that needs interning says so by asking \<open>lid\<close>
  to be injective on the identifiers at hand.
\<close>

record record_identifier =
  type :: string
  id_of :: "string option"
  lid :: string

section \<open>The hasMany edge (relationships/state/has-many.ts)\<close>

datatype rel_kind = hasMany | belongsTo | implicit

text \<open>The fields of \<^verbatim>\<open>UpgradedMeta\<close> that the sources read.\<close>

record upgraded_meta =
  kind :: rel_kind
  key :: string
  inverseKey :: string
  isAsync :: bool
  isImplicit :: bool
  inverseIsAsync :: bool
  inverseIsImplicit :: bool

record relationship_state =
  hasReceivedData :: bool
  isEmpty :: bool
  isStale :: bool
  hasDematerializedInverse :: bool

type_synonym links = "(string \<times> string) list"
type_synonym meta = "(string \<times> string) list"

text \<open>
  \<^verbatim>\<open>ManyRelationship\<close>. The two \<^verbatim>\<open>Set\<close>s are lists in insertion order. The back
  references \<^verbatim>\<open>graph\<close> and \<^verbatim>\<open>store\<close> are not fields: the graph is passed to the
  functions that need it.
\<close>

record many_relationship =
  definition' :: upgraded_meta
  identifier_of :: record_identifier
  state' :: "relationship_state option"
  transactionRef :: nat
  members :: "record_identifier list"
  canonicalMembers :: "record_identifier list"
  meta :: "meta option"
  links :: "links option"
  canonicalState :: "record_identifier list"
  currentState :: "record_identifier list"
  willUpdateManyArray' :: bool
  pendingManyArrayUpdates' :: jsval

definition new_ManyRelationship :: "upgraded_meta \<Rightarrow> record_identifier \<Rightarrow> many_relationship" where
  "new_ManyRelationship d i =
     \<lparr> definition' = d, identifier_of = i, state' = None, transactionRef = 0,
       members = [], canonicalMembers = [], meta = None, links = None,
       canonicalState = [], currentState = [], willUpdateManyArray' = False,
       pendingManyArrayUpdates' = Null \<rparr>"

text \<open>
  The getter \<^verbatim>\<open>state\<close> creates the flags on first use. \<^verbatim>\<open>createState\<close> lives in
  \<^verbatim>\<open>graph/-state\<close>, which is not among the sources: the fresh flags are the
  parameter \<open>cs\<close>. The getter returns the flags and the edge, whose \<open>state'\<close> is
  now set.
\<close>

definition state :: "relationship_state \<Rightarrow> many_relationship \<Rightarrow> relationship_state \<times> many_relationship" where
  "state cs r =
     (case state' r of
        Some s \<Rightarrow> (s, r)
      | None \<Rightarrow> (cs, r\<lparr>state' := Some cs\<rparr>))"



definition clear :: "many_relationship \<Rightarrow> many_relationship" where
  "clear r = r\<lparr>members := [], canonicalMembers := [], currentState := [], canonicalState := []\<rparr>"

text \<open>The payload of \<^verbatim>\<open>getData\<close>: a key that is left out is \<open>None\<close>.\<close>

record collection_resource_relationship =
  payload_data :: "record_identifier list option"
  payload_links :: "links option"
  payload_meta :: "meta option"

definition getData :: "relationship_state \<Rightarrow> many_relationship \<Rightarrow> collection_resource_relationship \<times> many_relationship" where
  "getData cs r =
     (let (s, r1) = state cs r;
          payload = \<lparr> payload_data = None, payload_links = None, payload_meta = None \<rparr>;
          payload = (if hasReceivedData s then payload\<lparr>payload_data := Some (currentState r1)\<rparr> else payload);
          payload = (if links r1 \<noteq> None then payload\<lparr>payload_links := links r1\<rparr> else payload);
          payload = (if meta r1 \<noteq> None then payload\<lparr>payload_meta := meta r1\<rparr> else payload)
      in (payload, r1))"

text \<open>
  The words of the specification for the order of the visit: the members of the
  current state first, in their order, then the members of the canonical state
  that are not among them, no identifier twice.
\<close>

fun first_occurrences :: "'a list \<Rightarrow> 'a list \<Rightarrow> 'a list" where
  "first_occurrences done' [] = []"
| "first_occurrences done' (x # xs) =
     (if x \<in> set done' then first_occurrences done' xs
      else x # first_occurrences (x # done') xs)"


section \<open>The record cache (record-data.ts)\<close>

text \<open>
  The calls on the store wrapper. Each call is logged together with the confirmed
  bucket \<^verbatim>\<open>__data\<close> that the cache holds when the call is made: this is what the
  store can read back from the cache during the call.
\<close>

datatype notification =
    StateChange string "string option" string
  | PropertyChange string "string option" string "string option"
  | ErrorsChange string "string option" string

fun is_StateChange :: "notification \<Rightarrow> bool" where
  "is_StateChange (StateChange t i l) = True"
| "is_StateChange (PropertyChange t i l k) = False"
| "is_StateChange (ErrorsChange t i l) = False"

record json_api_validation_error =
  title :: string
  detail :: string
  pointer :: string

text \<open>
  An operation of the graph:
  \<^verbatim>\<open>{op, record, field?, value?, index?, isNew?}\<close>. The value is an identifier, a list
  of identifiers or a relationship payload, by operation; its type is the
  parameter \<open>'v\<close>.
\<close>

datatype op_name =
    updateRelationship | deleteRecord | replaceRelatedRecord
  | addToRelatedRecords | removeFromRelatedRecords | replaceRelatedRecords
  | otherOperation string

record 'v operation =
  op :: op_name
  op_record :: record_identifier
  op_field :: "string option"
  op_value :: "'v option"
  op_index :: "nat option"
  op_isNew :: "bool option"

text \<open>
  The store wrapper as the cache uses it: the log of the notifications, the keys
  of \<^verbatim>\<open>relationshipsDefinitionFor(modelName)\<close>, and the operations handed to
  \<^verbatim>\<open>graphFor(storeWrapper).push\<close>, in the order of the calls.
\<close>

record 'v store_wrapper =
  notified :: "(notification \<times> hash option) list"
  relationshipsDefinitionFor :: "string \<Rightarrow> string list"
  graph_pushed :: "'v operation list"

text \<open>
  \<^verbatim>\<open>RecordDataDefault\<close>. \<^verbatim>\<open>modelName\<close>, \<^verbatim>\<open>lid\<close> and \<^verbatim>\<open>id\<close> are read from the identifier.
  A bucket that is \<^verbatim>\<open>null\<close> is \<open>None\<close>; \<^verbatim>\<open>_errors\<close> that is \<^verbatim>\<open>undefined\<close> is \<open>None\<close>.
\<close>

record 'v record_data =
  rd_identifier :: record_identifier
  isDestroyed :: bool
  isNew' :: bool
  isDeleted' :: bool
  attributes'' :: "hash option"
  inFlightAttributes'' :: "hash option"
  data'' :: "hash option"
  errors' :: "json_api_validation_error list option"
  storeWrapper :: "'v store_wrapper"

record 'v json_api_resource =
  res_id :: "string option"
  res_attributes :: "hash option"
  res_relationships :: "(string \<times> 'v) list option"

definition modelName :: "'v record_data \<Rightarrow> string" where
  "modelName rd = type (rd_identifier rd)"

definition notify :: "notification \<Rightarrow> 'v record_data \<Rightarrow> 'v record_data" where
  "notify n rd =
     rd\<lparr>storeWrapper := (storeWrapper rd)\<lparr>notified := notified (storeWrapper rd) @ [(n, data'' rd)]\<rparr>\<rparr>"

text \<open>The lazy getters: a bucket that is \<^verbatim>\<open>null\<close> becomes the empty object when it is read.\<close>

definition attributes' :: "'v record_data \<Rightarrow> hash \<times> 'v record_data" where
  "attributes' rd =
     (case attributes'' rd of
        None \<Rightarrow> ([], rd\<lparr>attributes'' := Some []\<rparr>)
      | Some h \<Rightarrow> (h, rd))"

definition inFlightAttributes' :: "'v record_data \<Rightarrow> hash \<times> 'v record_data" where
  "inFlightAttributes' rd =
     (case inFlightAttributes'' rd of
        None \<Rightarrow> ([], rd\<lparr>inFlightAttributes'' := Some []\<rparr>)
      | Some h \<Rightarrow> (h, rd))"

definition data' :: "'v record_data \<Rightarrow> hash \<times> 'v record_data" where
  "data' rd =
     (case data'' rd of
        None \<Rightarrow> ([], rd\<lparr>data'' := Some []\<rparr>)
      | Some h \<Rightarrow> (h, rd))"

definition notifyStateChange :: "'v record_data \<Rightarrow> 'v record_data" where
  "notifyStateChange rd =
     notify (StateChange (modelName rd) (id_of (rd_identifier rd)) (lid (rd_identifier rd))) rd"

definition notifyPropertyChange :: "string option \<Rightarrow> 'v record_data \<Rightarrow> 'v record_data" where
  "notifyPropertyChange k rd =
     notify (PropertyChange (type (rd_identifier rd)) (id_of (rd_identifier rd)) (lid (rd_identifier rd)) k) rd"

definition notifyErrorsChange :: "'v record_data \<Rightarrow> 'v record_data" where
  "notifyErrorsChange rd =
     notify (ErrorsChange (modelName rd) (id_of (rd_identifier rd)) (lid (rd_identifier rd))) rd"

text \<open>\<^verbatim>\<open>_notifyAttributes(keys?)\<close>: without keys one notification, else one per key.\<close>

definition notifyAttributes' :: "string list option \<Rightarrow> 'v record_data \<Rightarrow> 'v record_data" where
  "notifyAttributes' ks rd =
     (case ks of
        None \<Rightarrow> notifyPropertyChange None rd
      | Some names \<Rightarrow> fold (\<lambda>k. notifyPropertyChange (Some k)) names rd)"

definition hasChangedAttributes :: "'v record_data \<Rightarrow> bool" where
  "hasChangedAttributes rd =
     (case attributes'' rd of None \<Rightarrow> False | Some h \<Rightarrow> Object_keys h \<noteq> [])"

text \<open>
  \<^verbatim>\<open>_changedKeys(updates?)\<close>. \<^verbatim>\<open>isEqual\<close> of \<^verbatim>\<open>@ember/utils\<close> is the parameter \<open>isEqual\<close>.
  The keys that the user has changed (a value other than \<^verbatim>\<open>undefined\<close> in
  \<^verbatim>\<open>_attributes\<close>) are skipped.
\<close>

definition changedKeys' ::
  "(jsval \<Rightarrow> jsval \<Rightarrow> bool) \<Rightarrow> hash option \<Rightarrow> 'v record_data \<Rightarrow> string list \<times> 'v record_data" where
  "changedKeys' isEqual updates rd =
     (case updates of
        None \<Rightarrow> ([], rd)
      | Some u \<Rightarrow>
          (let hasAttrs = hasChangedAttributes rd;
               (attrs, rd1) = (if hasAttrs then attributes' rd else ([], rd));
               (d, rd2) = data' rd1;
               original = Object_assign (Object_assign [] d) (bucket (inFlightAttributes'' rd2))
           in (filter (\<lambda>k. \<not> (hasAttrs \<and> get_prop attrs k \<noteq> Undefined)
                            \<and> \<not> isEqual (get_prop original k) (get_prop u k))
                 (Object_keys u),
               rd2)))"

text \<open>\<^verbatim>\<open>changedAttributes()\<close>: for every key in flight or dirty, the pair \<^verbatim>\<open>[old, new]\<close>.\<close>

definition changedAttributes :: "'v record_data \<Rightarrow> (string \<times> jsval \<times> jsval) list \<times> 'v record_data" where
  "changedAttributes rd =
     (let (oldData, rd1) = data' rd;
          (currentData, rd2) = attributes' rd1;
          (inFlightData, rd3) = inFlightAttributes' rd2;
          newData = Object_assign (Object_assign [] inFlightData) currentData
      in (map (\<lambda>k. (k, get_prop oldData k, get_prop newData k)) (Object_keys newData), rd3))"

text \<open>
  \<^verbatim>\<open>_updateChangedAttributes()\<close>: a dirty attribute whose value is \<^verbatim>\<open>===\<close> to the
  confirmed one is deleted from \<^verbatim>\<open>_attributes\<close>; every name is notified.
\<close>

definition updateChangedAttributes' :: "'v record_data \<Rightarrow> 'v record_data" where
  "updateChangedAttributes' rd =
     (let (changed, rd1) = changedAttributes rd;
          changedAttributeNames = map fst changed;
          (attrs, rd2) = attributes' rd1;
          attrs1 = fold (\<lambda>(attribute, oldData, newData) a.
                           if strict_eq oldData newData then AList.delete attribute a else a)
                     changed attrs;
          rd3 = rd2\<lparr>attributes'' := Some attrs1\<rparr>
      in notifyAttributes' (Some changedAttributeNames) rd3)"

text \<open>
  \<^verbatim>\<open>_setupRelationships(data)\<close> walks the keys of the relationship definitions and
  pushes one \<^verbatim>\<open>updateRelationship\<close> per key that the payload has. A relationship that
  the payload holds as \<^verbatim>\<open>null\<close> or \<^verbatim>\<open>undefined\<close> is a key that the payload does not have.
\<close>

definition graph_push :: "'v operation \<Rightarrow> 'v record_data \<Rightarrow> 'v record_data" where
  "graph_push x rd =
     rd\<lparr>storeWrapper := (storeWrapper rd)\<lparr>graph_pushed := graph_pushed (storeWrapper rd) @ [x]\<rparr>\<rparr>"

definition setupRelationships' :: "(string \<times> 'v) list \<Rightarrow> 'v record_data \<Rightarrow> 'v record_data" where
  "setupRelationships' rels rd =
     fold (\<lambda>relationshipName rd1.
             case map_of rels relationshipName of
               None \<Rightarrow> rd1
             | Some relationshipData \<Rightarrow>
                 graph_push \<lparr> op = updateRelationship, op_record = rd_identifier rd1,
                              op_field = Some relationshipName, op_value = Some relationshipData,
                              op_index = None, op_isNew = None \<rparr> rd1)
       (relationshipsDefinitionFor (storeWrapper rd) (modelName rd)) rd"

definition pushData ::
  "(jsval \<Rightarrow> jsval \<Rightarrow> bool) \<Rightarrow> 'v json_api_resource \<Rightarrow> bool \<Rightarrow> 'v record_data
     \<Rightarrow> string list option \<times> 'v record_data" where
  "pushData isEqual d calculateChange rd =
     (let rd1 = (if isNew' rd then notifyStateChange (rd\<lparr>isNew' := False\<rparr>) else rd);
          (changedKeys, rd2) =
             (if calculateChange
              then (let (ks, r) = changedKeys' isEqual (res_attributes d) rd1 in (Some ks, r))
              else (None, rd1));
          (confirmed, rd3) = data' rd2;
          rd4 = rd3\<lparr>data'' := Some (Object_assign confirmed (bucket (res_attributes d)))\<rparr>;
          rd5 = (if attributes'' rd4 \<noteq> None then updateChangedAttributes' rd4 else rd4);
          rd6 = (case res_relationships d of None \<Rightarrow> rd5 | Some rels \<Rightarrow> setupRelationships' rels rd5);
          rd7 = (case changedKeys of
                   None \<Rightarrow> rd6
                 | Some ks \<Rightarrow> if ks \<noteq> [] then notifyAttributes' (Some ks) rd6 else rd6)
      in (changedKeys, rd7))"

definition willCommit :: "'v record_data \<Rightarrow> 'v record_data" where
  "willCommit rd =
     (let (attrs, rd1) = attributes' rd
      in rd1\<lparr>inFlightAttributes'' := Some attrs, attributes'' := None\<rparr>)"

definition getErrors :: "'v record_data \<Rightarrow> json_api_validation_error list" where
  "getErrors rd = (case errors' rd of None \<Rightarrow> [] | Some errors \<Rightarrow> errors)"

definition isNew :: "'v record_data \<Rightarrow> bool" where
  "isNew rd = isNew' rd"

definition clientDidCreate :: "'v record_data \<Rightarrow> 'v record_data" where
  "clientDidCreate rd = rd\<lparr>isNew' := True\<rparr>"

text \<open>
  \<^verbatim>\<open>commitWasRejected(identifier?, errors?)\<close>. A key in flight goes back to
  \<^verbatim>\<open>_attributes\<close> when \<^verbatim>\<open>attrs[key] === undefined\<close>.
\<close>

definition commitWasRejected ::
  "json_api_validation_error list option \<Rightarrow> 'v record_data \<Rightarrow> 'v record_data" where
  "commitWasRejected errors rd =
     (let (inFlight, rd1) = inFlightAttributes' rd;
          ks = Object_keys inFlight;
          rd2 = (if ks \<noteq> []
                 then (let (attrs, r) = attributes' rd1;
                           attrs1 = fold (\<lambda>k a. if strict_eq (get_prop a k) Undefined
                                                 then AList.update k (get_prop inFlight k) a else a)
                                      ks attrs
                       in r\<lparr>attributes'' := Some attrs1\<rparr>)
                 else rd1);
          rd3 = rd2\<lparr>inFlightAttributes'' := None\<rparr>;
          rd4 = (case errors of None \<Rightarrow> rd3 | Some e \<Rightarrow> rd3\<lparr>errors' := Some e\<rparr>)
      in notifyErrorsChange rd4)"

text \<open>
  \<^verbatim>\<open>setDirtyAttribute(key, value)\<close>. The original value is the one in flight when
  the key is in flight, else the confirmed one.
\<close>

definition setDirtyAttribute :: "string \<Rightarrow> jsval \<Rightarrow> 'v record_data \<Rightarrow> 'v record_data" where
  "setDirtyAttribute k v rd =
     (let rd1 = notifyPropertyChange (Some k) rd;
          (attrs, rd2) = attributes' rd1;
          rd3 = rd2\<lparr>attributes'' := Some (AList.update k v attrs)\<rparr>;
          (inFlight, rd4) = inFlightAttributes' rd3;
          (originalValue, rd5) =
             (if has_key k inFlight then (get_prop inFlight k, rd4)
              else (let (d, r) = data' rd4 in (get_prop d k, r)))
      in if strict_eq v originalValue
         then (let (attrs2, rd6) = attributes' rd5
               in rd6\<lparr>attributes'' := Some (AList.delete k attrs2)\<rparr>)
         else rd5)"

definition getAttr :: "string \<Rightarrow> 'v record_data \<Rightarrow> jsval \<times> 'v record_data" where
  "getAttr k rd =
     (let (attrs, rd1) = attributes' rd
      in if has_key k attrs then (get_prop attrs k, rd1)
         else (let (inFlight, rd2) = inFlightAttributes' rd1
               in if has_key k inFlight then (get_prop inFlight k, rd2)
                  else (let (d, rd3) = data' rd2 in (get_prop d k, rd3))))"

definition hasAttr :: "string \<Rightarrow> 'v record_data \<Rightarrow> bool \<times> 'v record_data" where
  "hasAttr k rd =
     (let (attrs, rd1) = attributes' rd
      in if has_key k attrs then (True, rd1)
         else (let (inFlight, rd2) = inFlightAttributes' rd1
               in if has_key k inFlight then (True, rd2)
                  else (let (d, rd3) = data' rd2 in (has_key k d, rd3))))"

text \<open>The constructor: \<^verbatim>\<open>reset()\<close> sets the three buckets to \<^verbatim>\<open>null\<close>.\<close>

definition new_RecordData :: "record_identifier \<Rightarrow> 'v store_wrapper \<Rightarrow> 'v record_data" where
  "new_RecordData i w =
     \<lparr> rd_identifier = i, isDestroyed = False, isNew' = False, isDeleted' = False,
       attributes'' = None, inFlightAttributes'' = None, data'' = None, errors' = None,
       storeWrapper = w \<rparr>"

definition state_changes :: "(notification \<times> hash option) list \<Rightarrow> (notification \<times> hash option) list" where
  "state_changes l = filter (\<lambda>e. is_StateChange (fst e)) l"

text \<open>No state change is notified between two states of the cache.\<close>

definition quiet :: "'v record_data \<Rightarrow> 'v record_data \<Rightarrow> bool" where
  "quiet rd rd1 =
     (\<exists>later. notified (storeWrapper rd1) = notified (storeWrapper rd) @ later
        \<and> state_changes later = [])"

section \<open>Raises\<close>

text \<open>
  What a function raises: a failed \<^verbatim>\<open>assert\<close>, with the text of its message and the
  identifiers that the message interpolates, or an \<^verbatim>\<open>Error\<close> thrown by the code or by
  the runtime. A function that can raise returns \<open>fatal + 'a\<close>.
\<close>

datatype fatal = AssertionFailed string "record_identifier list" | Thrown string

definition and_then :: "fatal + 'a \<Rightarrow> ('a \<Rightarrow> fatal + 'b) \<Rightarrow> fatal + 'b" where
  "and_then r f = (case r of Inl e \<Rightarrow> Inl e | Inr x \<Rightarrow> f x)"

section \<open>The fetch manager (network/fetch-manager.ts)\<close>

text \<open>
  \<^verbatim>\<open>FindOptions\<close>. \<^verbatim>\<open>isSameRequest\<close> reads \<^verbatim>\<open>include\<close> only; an \<^verbatim>\<open>include\<close> that is
  \<^verbatim>\<open>undefined\<close> is \<open>None\<close>.
\<close>

record find_options =
  include_of :: "string option"
  reload :: bool
  backgroundReload :: bool

record find_record_query =
  query_op :: string
  recordIdentifier :: record_identifier
  query_options :: find_options

type_synonym request = "find_record_query list"

text \<open>
  A promise is its handle. \<^verbatim>\<open>RSVP.defer\<close> takes a fresh handle for the deferred and
  its promise, \<^verbatim>\<open>then\<close> takes a fresh handle for the promise it returns.
\<close>

record pending_fetch_item =
  fetch_identifier :: record_identifier
  queryRequest :: request
  resolver :: nat
  fetch_options :: find_options
  promise :: nat

text \<open>
  The fetch half of \<^verbatim>\<open>FetchManager\<close>: the table of the pending fetches, a \<^verbatim>\<open>Map\<close> from
  the type to the items in the order of their arrival, the calls of
  \<^verbatim>\<open>requestCache.enqueue\<close>, the number of flushes handed to the run loop, and the
  next fresh handle.
\<close>

record fetch_manager =
  fm_isDestroyed :: bool
  pendingFetch' :: "(string \<times> pending_fetch_item list) list"
  requestCache :: "(nat \<times> request) list"
  scheduled_flushes :: nat
  next_handle :: nat

definition new_FetchManager :: fetch_manager where
  "new_FetchManager =
     \<lparr> fm_isDestroyed = False, pendingFetch' = [], requestCache = [],
       scheduled_flushes = 0, next_handle = 0 \<rparr>"

definition isSameRequest :: "find_options \<Rightarrow> find_options \<Rightarrow> bool" where
  "isSameRequest options reqOptions = (include_of options = include_of reqOptions)"

text \<open>
  \<^verbatim>\<open>getPendingFetch\<close>: \<^verbatim>\<open>find\<close> returns the first pending item of the identifier, and
  the options are compared with that item only.
\<close>

definition getPendingFetch :: "record_identifier \<Rightarrow> find_options \<Rightarrow> fetch_manager \<Rightarrow> nat option" where
  "getPendingFetch i options fm =
     (case map_of (pendingFetch' fm) (type i) of
        None \<Rightarrow> None
      | Some pendingFetches \<Rightarrow>
          (case find (\<lambda>fetch. fetch_identifier fetch = i) pendingFetches of
             None \<Rightarrow> None
           | Some matchingPendingFetch \<Rightarrow>
               if isSameRequest options (fetch_options matchingPendingFetch)
               then Some (promise matchingPendingFetch) else None))"

definition scheduleFetch :: "record_identifier \<Rightarrow> find_options \<Rightarrow> fetch_manager \<Rightarrow> nat \<times> fetch_manager" where
  "scheduleFetch i options fm =
     (let query = \<lparr> query_op = ''findRecord'', recordIdentifier = i, query_options = options \<rparr>;
          request = [query]
      in case getPendingFetch i options fm of
           Some pendingFetch \<Rightarrow> (pendingFetch, fm)
         | None \<Rightarrow>
             (let name = type i;
                  resolverPromise = next_handle fm;
                  thenPromise = Suc (next_handle fm);
                  pendingFetchItem =
                    \<lparr> fetch_identifier = i, queryRequest = request, resolver = resolverPromise,
                      fetch_options = options, promise = thenPromise \<rparr>;
                  fm1 = fm\<lparr>next_handle := next_handle fm + 2\<rparr>;
                  fm2 = (if length (pendingFetch' fm1) = 0
                         then fm1\<lparr>scheduled_flushes := Suc (scheduled_flushes fm1)\<rparr> else fm1);
                  fetches = (if map_of (pendingFetch' fm2) name = None
                             then AList.update name [] (pendingFetch' fm2) else pendingFetch' fm2);
                  fetches1 = AList.update name (the (map_of fetches name) @ [pendingFetchItem]) fetches;
                  fm3 = fm2\<lparr>pendingFetch' := fetches1\<rparr>;
                  fm4 = fm3\<lparr>requestCache := requestCache fm3 @ [(resolverPromise, request)]\<rparr>
              in (thenPromise, fm4)))"

text \<open>The pending items of an identifier with equivalent options, over the whole table.\<close>

definition pending_for :: "record_identifier \<Rightarrow> find_options \<Rightarrow> fetch_manager \<Rightarrow> pending_fetch_item list" where
  "pending_for i options fm =
     filter (\<lambda>fetch. fetch_identifier fetch = i \<and> isSameRequest options (fetch_options fetch))
       (concat (map snd (pendingFetch' fm)))"

subsection \<open>The answer to a coalesced fetch\<close>

record resource_object =
  resource_id :: string
  resource_type :: string
  resource_attributes :: hash

record collection_resource_document =
  doc_data :: "resource_object list"
  doc_included :: "resource_object list option"

record single_resource_document =
  single_data :: resource_object
  single_included :: "resource_object list"

text \<open>What the sources read of a \<^verbatim>\<open>Snapshot\<close>: its \<^verbatim>\<open>id\<close> and its \<^verbatim>\<open>modelName\<close>.\<close>

record snapshot =
  snapshot_id :: "string option"
  snapshot_modelName :: string

text \<open>
  The error of a rejection: the one the caller passes, or the \<^verbatim>\<open>Error\<close> made by
  \<^verbatim>\<open>rejectFetchedItems\<close>, whose message
  \<^verbatim>\<open>Expected: '<modelName:id>' to be present in the adapter provided payload, but it was not found.\<close>
  is \<open>NotFoundInPayload modelName id\<close>.
\<close>

datatype fetch_error = NotFoundInPayload string string | Passed string

text \<open>
  A deferred settles once: \<^verbatim>\<open>resolve\<close> and \<^verbatim>\<open>reject\<close> on a settled deferred do
  nothing. The deferreds are a store from the handle to the outcome; a pending
  deferred has none.
\<close>

datatype outcome = Resolved single_resource_document | Rejected fetch_error

type_synonym deferreds = "nat \<Rightarrow> outcome option"

definition resolve :: "nat \<Rightarrow> single_resource_document \<Rightarrow> deferreds \<Rightarrow> deferreds" where
  "resolve r v ds = (if ds r = None then ds(r \<mapsto> Resolved v) else ds)"

definition reject :: "nat \<Rightarrow> fetch_error \<Rightarrow> deferreds \<Rightarrow> deferreds" where
  "reject r e ds = (if ds r = None then ds(r \<mapsto> Rejected e) else ds)"

text \<open>\<^verbatim>\<open>assertIsString\<close> throws in a debug build when the id is not a string.\<close>

definition assertIsString :: "string option \<Rightarrow> fatal + string" where
  "assertIsString i =
     (case i of None \<Rightarrow> Inl (Thrown ''Cannot fetch record without an id'') | Some s \<Rightarrow> Inr s)"

text \<open>The first loop of \<^verbatim>\<open>handleFoundRecords\<close>: resolve found records.\<close>

fun resolve_found ::
  "(string \<Rightarrow> pending_fetch_item option) \<Rightarrow> resource_object list \<Rightarrow> resource_object list
     \<Rightarrow> (string \<Rightarrow> resource_object option) \<times> deferreds
     \<Rightarrow> (string \<Rightarrow> resource_object option) \<times> deferreds" where
  "resolve_found seeking included [] (found, ds) = (found, ds)"
| "resolve_found seeking included (payload # payloads) (found, ds) =
     resolve_found seeking included payloads
       (found(resource_id payload \<mapsto> payload),
        case seeking (resource_id payload) of
          None \<Rightarrow> ds
        | Some pair \<Rightarrow> resolve (resolver pair) \<lparr> single_data = payload, single_included = included \<rparr> ds)"

text \<open>The second loop: the expected snapshots that were not found.\<close>

fun missing_snapshots :: "(string \<Rightarrow> resource_object option) \<Rightarrow> snapshot list \<Rightarrow> fatal + snapshot list" where
  "missing_snapshots found [] = Inr []"
| "missing_snapshots found (s # expected) =
     and_then (assertIsString (snapshot_id s)) (\<lambda>i.
     and_then (missing_snapshots found expected) (\<lambda>missing.
       Inr (if found i = None then s # missing else missing)))"

fun rejectFetchedItems ::
  "(string \<Rightarrow> pending_fetch_item option) \<Rightarrow> snapshot list \<Rightarrow> fetch_error option \<Rightarrow> deferreds
     \<Rightarrow> fatal + deferreds" where
  "rejectFetchedItems seeking [] error ds = Inr ds"
| "rejectFetchedItems seeking (s # snapshots) error ds =
     and_then (assertIsString (snapshot_id s)) (\<lambda>i.
       rejectFetchedItems seeking snapshots error
         (case seeking i of
            None \<Rightarrow> ds
          | Some pair \<Rightarrow>
              reject (resolver pair)
                (case error of
                   Some e \<Rightarrow> e
                 | None \<Rightarrow> NotFoundInPayload (snapshot_modelName s) i) ds))"

text \<open>
  \<^verbatim>\<open>handleFoundRecords\<close>. The state is the deferreds and the warnings; a warning
  is the list of the missing ids.
\<close>

definition handleFoundRecords ::
  "(string \<Rightarrow> pending_fetch_item option) \<Rightarrow> collection_resource_document \<Rightarrow> snapshot list
     \<Rightarrow> deferreds \<times> string option list list \<Rightarrow> fatal + deferreds \<times> string option list list" where
  "handleFoundRecords seeking coalescedPayload expectedSnapshots st =
     (let (ds, warnings) = st;
          payloads = doc_data coalescedPayload;
          coalescedIncluded = (case doc_included coalescedPayload of None \<Rightarrow> [] | Some inc \<Rightarrow> inc);
          (found, ds1) = resolve_found seeking (coalescedIncluded @ payloads) payloads (Map.empty, ds)
      in and_then (missing_snapshots found expectedSnapshots) (\<lambda>missingSnapshots.
           if missingSnapshots \<noteq> []
           then and_then (rejectFetchedItems seeking missingSnapshots None ds1) (\<lambda>ds2.
                  Inr (ds2, warnings @ [map snapshot_id missingSnapshots]))
           else Inr (ds1, warnings)))"

subsection \<open>The flush of the pending fetches\<close>

text \<open>
  The adapter as the flush reads it: whether it has \<^verbatim>\<open>findRecord\<close> and \<^verbatim>\<open>findMany\<close>, its
  flag \<^verbatim>\<open>coalesceFindRequests\<close>, and \<^verbatim>\<open>groupRecordsForFindMany\<close> when it has one. What
  the adapter answers comes later; the flush makes the calls and leaves the
  handlers: \<open>handleFoundRecords\<close> for the answer of \<^verbatim>\<open>findMany\<close>,
  \<open>rejectFetchedItems\<close> for its failure, each with the \<open>seeking\<close> and the group of the call.
\<close>

record adapter =
  has_findRecord :: bool
  has_findMany :: bool
  coalesceFindRequests :: bool
  groupRecordsForFindMany :: "(snapshot list \<Rightarrow> snapshot list list) option"

datatype adapter_call =
    FindMany string "string option list" "snapshot list"
  | FindRecord "string option" snapshot pending_fetch_item

text \<open>An id as the key of a property: \<^verbatim>\<open>null\<close> is the key \<^verbatim>\<open>"null"\<close>.\<close>

definition key_of_id :: "string option \<Rightarrow> string" where
  "key_of_id i = (case i of None \<Rightarrow> ''null'' | Some s \<Rightarrow> s)"

text \<open>
  The first loop of \<^verbatim>\<open>_flushPendingFetchForType\<close>: \<^verbatim>\<open>seeking[identifier.id] = pendingItem\<close>
  and \<^verbatim>\<open>optionsMap.set(identifier, pendingItem.options)\<close>. A later item of the same id
  takes the place of an earlier one.
\<close>

definition seeking_of :: "pending_fetch_item list \<Rightarrow> string \<Rightarrow> pending_fetch_item option" where
  "seeking_of pendingFetchItems =
     fold (\<lambda>pendingItem seeking.
             seeking(key_of_id (id_of (fetch_identifier pendingItem)) \<mapsto> pendingItem))
       pendingFetchItems Map.empty"

definition optionsMap_of :: "pending_fetch_item list \<Rightarrow> record_identifier \<Rightarrow> find_options option" where
  "optionsMap_of pendingFetchItems =
     fold (\<lambda>pendingItem optionsMap.
             optionsMap(fetch_identifier pendingItem \<mapsto> fetch_options pendingItem))
       pendingFetchItems Map.empty"

text \<open>
  \<^verbatim>\<open>_fetchRecord(fetchItem)\<close>, up to the call of the adapter. The class \<^verbatim>\<open>Snapshot\<close> is
  not among the sources: its constructor is the parameter \<open>newSnapshot\<close>.
\<close>

definition fetchRecord' ::
  "(find_options option \<Rightarrow> record_identifier \<Rightarrow> snapshot) \<Rightarrow> adapter
     \<Rightarrow> pending_fetch_item option \<Rightarrow> fatal + adapter_call" where
  "fetchRecord' newSnapshot a fetchItem =
     (case fetchItem of
        None \<Rightarrow> Inl (Thrown ''TypeError'')
      | Some item \<Rightarrow>
          if \<not> has_findRecord a
          then Inl (AssertionFailed
                 ''You tried to find a record but your adapter does not implement findRecord''
                 [fetch_identifier item])
          else Inr (FindRecord (id_of (fetch_identifier item))
                      (newSnapshot (Some (fetch_options item)) (fetch_identifier item)) item))"

definition processCoalescedGroup' ::
  "(find_options option \<Rightarrow> record_identifier \<Rightarrow> snapshot) \<Rightarrow> adapter
     \<Rightarrow> (string \<Rightarrow> pending_fetch_item option) \<Rightarrow> snapshot list \<Rightarrow> string
     \<Rightarrow> fatal + adapter_call" where
  "processCoalescedGroup' newSnapshot a seeking grp name =
     (let totalInGroup = length grp;
          groupedSnapshots = grp;
          ids = map snapshot_id groupedSnapshots
      in if totalInGroup > 1 then Inr (FindMany name ids groupedSnapshots)
         else if length ids = 1
         then fetchRecord' newSnapshot a (seeking (key_of_id (snapshot_id (hd groupedSnapshots))))
         else Inl (AssertionFailed
                ''You cannot return an empty array from adapter's method groupRecordsForFindMany'' []))"

fun each_call :: "('a \<Rightarrow> fatal + adapter_call) \<Rightarrow> 'a list \<Rightarrow> fatal + adapter_call list" where
  "each_call f [] = Inr []"
| "each_call f (x # xs) =
     and_then (f x) (\<lambda>c. and_then (each_call f xs) (\<lambda>cs. Inr (c # cs)))"

text \<open>
  \<^verbatim>\<open>_flushPendingFetchForType(pendingFetchItems, modelName)\<close> returns the \<open>seeking\<close> that
  it has built and the calls of the adapter, in their order.
\<close>

definition flushPendingFetchForType' ::
  "(find_options option \<Rightarrow> record_identifier \<Rightarrow> snapshot) \<Rightarrow> adapter
     \<Rightarrow> pending_fetch_item list \<Rightarrow> string
     \<Rightarrow> fatal + (string \<Rightarrow> pending_fetch_item option) \<times> adapter_call list" where
  "flushPendingFetchForType' newSnapshot a pendingFetchItems name =
     (let shouldCoalesce = (has_findMany a \<and> coalesceFindRequests a);
          identifiers = map fetch_identifier pendingFetchItems;
          optionsMap = optionsMap_of pendingFetchItems;
          seeking = seeking_of pendingFetchItems
      in if shouldCoalesce
         then (let snapshots = map (\<lambda>i. newSnapshot (optionsMap i) i) identifiers;
                   groups = (case groupRecordsForFindMany a of
                               Some grouping \<Rightarrow> grouping snapshots
                             | None \<Rightarrow> [snapshots])
               in and_then
                    (each_call (\<lambda>grp. processCoalescedGroup' newSnapshot a seeking grp name) groups)
                    (\<lambda>calls. Inr (seeking, calls)))
         else and_then
                (each_call (\<lambda>item. fetchRecord' newSnapshot a (Some item)) pendingFetchItems)
                (\<lambda>calls. Inr (seeking, calls)))"

section \<open>The graph (graph/index.ts)\<close>

text \<open>
  Modelled from the spec: the edge classes \<^verbatim>\<open>BelongsToRelationship\<close> and
  \<^verbatim>\<open>ImplicitRelationship\<close> (\<^verbatim>\<open>relationships/state/belongs-to.ts\<close> and \<^verbatim>\<open>implicit.ts\<close> are
  not among the sources). A belongsTo edge holds one nullable identifier as local state
  and one as remote state, with meta, links, flags and the transaction counter; an
  implicit edge holds the two member sets.
\<close>

record belongs_to_relationship =
  bt_definition :: upgraded_meta
  bt_identifier :: record_identifier
  bt_state :: "relationship_state option"
  bt_transactionRef :: nat
  localState :: "record_identifier option"
  remoteState :: "record_identifier option"
  bt_meta :: "meta option"
  bt_links :: "links option"

record implicit_relationship =
  im_definition :: upgraded_meta
  im_identifier :: record_identifier
  im_members :: "record_identifier list"
  im_canonicalMembers :: "record_identifier list"

datatype relationship_edge =
    Many many_relationship
  | BelongsTo belongs_to_relationship
  | Implicit implicit_relationship

fun edge_definition :: "relationship_edge \<Rightarrow> upgraded_meta" where
  "edge_definition (Many r) = definition' r"
| "edge_definition (BelongsTo r) = bt_definition r"
| "edge_definition (Implicit r) = im_definition r"

definition new_edge :: "upgraded_meta \<Rightarrow> record_identifier \<Rightarrow> relationship_edge" where
  "new_edge m i =
     (if kind m = hasMany then Many (new_ManyRelationship m i)
      else if kind m = belongsTo
      then BelongsTo \<lparr> bt_definition = m, bt_identifier = i, bt_state = None, bt_transactionRef = 0,
                       localState = None, remoteState = None, bt_meta = None, bt_links = None \<rparr>
      else Implicit \<lparr> im_definition = m, im_identifier = i, im_members = [], im_canonicalMembers = [] \<rparr>)"

record 'v pushed_updates =
  pu_belongsTo :: "'v operation list"
  pu_hasMany :: "'v operation list"
  pu_deletions :: "'v operation list"

definition no_updates :: "'v pushed_updates" where
  "no_updates = \<lparr> pu_belongsTo = [], pu_hasMany = [], pu_deletions = [] \<rparr>"

datatype queue_name = coalesce | sync

text \<open>
  \<^verbatim>\<open>Graph\<close>. The edges are objects that the graph, its transaction and its set of
  updated relationships share: they live in the store \<open>edges\<close>, and the other
  fields hold their addresses. \<open>scheduled\<close> logs the calls of
  \<^verbatim>\<open>backburner.schedule\<close>.
\<close>

record 'v graph =
  identifiers :: "record_identifier \<Rightarrow> (string \<times> nat) list option"
  edges :: "nat \<Rightarrow> relationship_edge option"
  next_edge :: nat
  willSyncRemote' :: bool
  willSyncLocal' :: bool
  pushedUpdates' :: "'v pushed_updates"
  updatedRelationships' :: "nat list"
  transaction' :: "nat list option"
  removing' :: "record_identifier option"
  scheduled :: "queue_name list"

definition new_Graph :: "'v graph" where
  "new_Graph =
     \<lparr> identifiers = Map.empty, edges = Map.empty, next_edge = 0,
       willSyncRemote' = False, willSyncLocal' = False, pushedUpdates' = no_updates,
       updatedRelationships' = [], transaction' = None, removing' = None, scheduled = [] \<rparr>"

definition has :: "record_identifier \<Rightarrow> string \<Rightarrow> ('v, 'z) graph_scheme \<Rightarrow> bool" where
  "has i propertyName g =
     (case identifiers g i of
        None \<Rightarrow> False
      | Some relationships \<Rightarrow> map_of relationships propertyName \<noteq> None)"

text \<open>
  \<^verbatim>\<open>get\<close>. \<^verbatim>\<open>upgradeDefinition\<close> and \<^verbatim>\<open>isLHS\<close> live in \<^verbatim>\<open>graph/-edge-definition\<close>, which is
  not among the sources: the parameter \<open>definitionFor\<close> gives the side of the
  definition that belongs to the identifier and the field, or nothing when
  \<^verbatim>\<open>upgradeDefinition\<close> returns \<^verbatim>\<open>null\<close>. \<open>get\<close> returns the address of the edge.
\<close>

definition get ::
  "(record_identifier \<Rightarrow> string \<Rightarrow> upgraded_meta option) \<Rightarrow> record_identifier \<Rightarrow> string
     \<Rightarrow> ('v, 'z) graph_scheme \<Rightarrow> fatal + nat \<times> ('v, 'z) graph_scheme" where
  "get definitionFor i propertyName g =
     (if propertyName = [] then Inl (AssertionFailed ''expected propertyName'' [])
      else
        (let g1 = (case identifiers g i of
                     None \<Rightarrow> g\<lparr>identifiers := (identifiers g)(i \<mapsto> [])\<rparr>
                   | Some relationships \<Rightarrow> g);
             relationships = the (identifiers g1 i)
         in case map_of relationships propertyName of
              Some relationship \<Rightarrow> Inr (relationship, g1)
            | None \<Rightarrow>
                (case definitionFor i propertyName of
                   None \<Rightarrow> Inl (AssertionFailed ''Could not determine relationship information for {type}.{propertyName}'' [i])
                 | Some m \<Rightarrow>
                     (let relationship = next_edge g1;
                          g2 = g1\<lparr>edges := (edges g1)(relationship \<mapsto> new_edge m i),
                                  next_edge := Suc (next_edge g1),
                                  identifiers := (identifiers g1)(i \<mapsto>
                                     AList.update propertyName relationship relationships)\<rparr>
                      in Inr (relationship, g2)))))"

text \<open>\<^verbatim>\<open>push(op)\<close>: the operation goes to the end of one of the three buffers.\<close>

definition schedule_coalesce :: "('v, 'z) graph_scheme \<Rightarrow> ('v, 'z) graph_scheme" where
  "schedule_coalesce g =
     (if \<not> willSyncRemote' g
      then g\<lparr>willSyncRemote' := True, scheduled := scheduled g @ [coalesce]\<rparr>
      else g)"

definition push ::
  "(record_identifier \<Rightarrow> string \<Rightarrow> upgraded_meta option) \<Rightarrow> 'v operation
     \<Rightarrow> ('v, 'z) graph_scheme \<Rightarrow> fatal + ('v, 'z) graph_scheme" where
  "push definitionFor x g =
     and_then
       (if op x = deleteRecord
        then Inr (g\<lparr>pushedUpdates' := (pushedUpdates' g)
                     \<lparr>pu_deletions := pu_deletions (pushedUpdates' g) @ [x]\<rparr>\<rparr>)
        else if op x = replaceRelatedRecord
        then Inr (g\<lparr>pushedUpdates' := (pushedUpdates' g)
                     \<lparr>pu_belongsTo := pu_belongsTo (pushedUpdates' g) @ [x]\<rparr>\<rparr>)
        else
          and_then
            (case op_field x of
               None \<Rightarrow> Inl (AssertionFailed ''expected propertyName'' [])
             | Some f \<Rightarrow> get definitionFor (op_record x) f g)
            (\<lambda>(relationship, g1).
               case edges g1 relationship of
                 None \<Rightarrow> Inl (Thrown ''TypeError'')
               | Some e \<Rightarrow>
                   if isImplicit (edge_definition e)
                   then Inl (AssertionFailed ''Cannot push a remote update for an implicit relationship'' [])
                   else if kind (edge_definition e) = hasMany
                   then Inr (g1\<lparr>pushedUpdates' := (pushedUpdates' g1)
                                \<lparr>pu_hasMany := pu_hasMany (pushedUpdates' g1) @ [x]\<rparr>\<rparr>)
                   else if kind (edge_definition e) = belongsTo
                   then Inr (g1\<lparr>pushedUpdates' := (pushedUpdates' g1)
                                \<lparr>pu_belongsTo := pu_belongsTo (pushedUpdates' g1) @ [x]\<rparr>\<rparr>)
                   else Inl (Thrown ''TypeError'')))
       (\<lambda>g2. Inr (schedule_coalesce g2))"

text \<open>
  \<^verbatim>\<open>update(op, isRemote)\<close> dispatches to the operations of \<^verbatim>\<open>graph/operations\<close> and to
  the edge classes, and \<^verbatim>\<open>unload(identifier)\<close> walks the edges of the identifier and
  calls into the edge classes. The operations and two of the three edge classes
  are not among the sources, so \<open>update\<close> and \<open>unload\<close> are parameters of the
  functions that call them: a function from the operation (or the identifier) and
  the graph to the graph, or to what it raises. The theorems hold for every such
  function.
\<close>

fun apply_updates ::
  "('v operation \<Rightarrow> bool \<Rightarrow> ('v, 'z) graph_scheme \<Rightarrow> fatal + ('v, 'z) graph_scheme)
     \<Rightarrow> 'v operation list \<Rightarrow> ('v, 'z) graph_scheme \<Rightarrow> fatal + ('v, 'z) graph_scheme" where
  "apply_updates update [] g = Inr g"
| "apply_updates update (x # xs) g = and_then (update x True g) (apply_updates update xs)"

text \<open>\<^verbatim>\<open>_finalize\<close>: the counters of the edges of the transaction go to 0.\<close>

fun reset_transactionRef :: "relationship_edge \<Rightarrow> relationship_edge" where
  "reset_transactionRef (Many r) = Many (r\<lparr>transactionRef := 0\<rparr>)"
| "reset_transactionRef (BelongsTo r) = BelongsTo (r\<lparr>bt_transactionRef := 0\<rparr>)"
| "reset_transactionRef (Implicit r) = Implicit r"

definition finalize' :: "('v, 'z) graph_scheme \<Rightarrow> ('v, 'z) graph_scheme" where
  "finalize' g =
     (case transaction' g of
        None \<Rightarrow> g
      | Some t \<Rightarrow>
          g\<lparr>edges := fold (\<lambda>v es. case es v of None \<Rightarrow> es
                                    | Some e \<Rightarrow> es(v \<mapsto> reset_transactionRef e)) t (edges g),
            transaction' := None\<rparr>)"

definition flushRemoteQueue' ::
  "('v operation \<Rightarrow> bool \<Rightarrow> ('v, 'z) graph_scheme \<Rightarrow> fatal + ('v, 'z) graph_scheme)
     \<Rightarrow> ('v, 'z) graph_scheme \<Rightarrow> fatal + ('v, 'z) graph_scheme" where
  "flushRemoteQueue' update g =
     (if \<not> willSyncRemote' g then Inr g
      else
        (let g1 = g\<lparr>transaction' := Some [], willSyncRemote' := False\<rparr>;
             deletions = pu_deletions (pushedUpdates' g1);
             hasMany_updates = pu_hasMany (pushedUpdates' g1);
             belongsTo_updates = pu_belongsTo (pushedUpdates' g1);
             g2 = g1\<lparr>pushedUpdates' :=
                       (pushedUpdates' g1)\<lparr>pu_deletions := [], pu_hasMany := [], pu_belongsTo := []\<rparr>\<rparr>
         in and_then (apply_updates update deletions g2) (\<lambda>g3.
            and_then (apply_updates update hasMany_updates g3) (\<lambda>g4.
            and_then (apply_updates update belongsTo_updates g4) (\<lambda>g5.
              Inr (finalize' g5))))))"

text \<open>\<^verbatim>\<open>remove(identifier)\<close>, with its assertion on \<^verbatim>\<open>_removing\<close>.\<close>

definition remove ::
  "(record_identifier \<Rightarrow> ('v, 'z) graph_scheme \<Rightarrow> fatal + ('v, 'z) graph_scheme)
     \<Rightarrow> record_identifier \<Rightarrow> ('v, 'z) graph_scheme \<Rightarrow> fatal + ('v, 'z) graph_scheme" where
  "remove unload i g =
     (case removing' g of
        Some r \<Rightarrow> Inl (AssertionFailed ''Cannot remove {identifier} while still removing {_removing}'' [i, r])
      | None \<Rightarrow>
          and_then (unload i (g\<lparr>removing' := Some i\<rparr>)) (\<lambda>g1.
            Inr (g1\<lparr>identifiers := (identifiers g1)(i := None), removing' := None\<rparr>)))"

text \<open>The operations that are buffered, in the order of the pass.\<close>

definition buffered :: "('v, 'z) graph_scheme \<Rightarrow> 'v operation list" where
  "buffered g =
     pu_deletions (pushedUpdates' g) @ pu_hasMany (pushedUpdates' g) @ pu_belongsTo (pushedUpdates' g)"

section \<open>Concrete inputs\<close>

definition example_definition :: upgraded_meta where
  "example_definition =
     \<lparr> kind = hasMany, key = ''comments'', inverseKey = ''post'', isAsync = False,
       isImplicit = False, inverseIsAsync = False, inverseIsImplicit = False \<rparr>"

definition ident :: "string \<Rightarrow> string \<Rightarrow> record_identifier" where
  "ident t n = \<lparr> type = t, id_of = Some n, lid = ''@lid:'' @ t @ ''-'' @ n \<rparr>"


definition example_wrapper :: "unit store_wrapper" where
  "example_wrapper = \<lparr> notified = [], relationshipsDefinitionFor = (\<lambda>m. []), graph_pushed = [] \<rparr>"

definition example_cache :: "unit record_data" where
  "example_cache = new_RecordData (ident ''post'' ''1'') example_wrapper"

definition payload_name :: "string \<Rightarrow> unit json_api_resource" where
  "payload_name s =
     \<lparr> res_id = Some ''1'', res_attributes = Some [(''name'', JStr s)], res_relationships = None \<rparr>"

text \<open>
  A cache in the middle of a save: the server has confirmed the name \<open>D\<close>, the user
  has set it to \<open>W\<close>, and the save of \<open>W\<close> is in flight.
\<close>

definition in_flight_cache :: "unit record_data" where
  "in_flight_cache =
     willCommit (setDirtyAttribute ''name'' (JStr ''W'')
       (snd (pushData strict_eq (payload_name ''D'') False example_cache)))"

definition options_including :: "string \<Rightarrow> find_options" where
  "options_including s = \<lparr> include_of = Some s, reload = False, backgroundReload = False \<rparr>"

text \<open>
  Three calls for the same record before a flush: one that includes the author,
  then two that include the comments.
\<close>

definition after_author :: "nat \<times> fetch_manager" where
  "after_author = scheduleFetch (ident ''post'' ''1'') (options_including ''author'') new_FetchManager"

definition after_comments :: "nat \<times> fetch_manager" where
  "after_comments = scheduleFetch (ident ''post'' ''1'') (options_including ''comments'') (snd after_author)"

definition after_comments_again :: "nat \<times> fetch_manager" where
  "after_comments_again =
     scheduleFetch (ident ''post'' ''1'') (options_including ''comments'') (snd after_comments)"

text \<open>
  A batch of two pending fetches, for the posts 1 and 2, with the deferreds 0 and 2.
  The answer has the post 1 only.
\<close>

definition example_item :: "string \<Rightarrow> nat \<Rightarrow> pending_fetch_item" where
  "example_item n r =
     \<lparr> fetch_identifier = ident ''post'' n,
       queryRequest = [\<lparr> query_op = ''findRecord'', recordIdentifier = ident ''post'' n,
                        query_options = options_including ''author'' \<rparr>],
       resolver = r, fetch_options = options_including ''author'', promise = Suc r \<rparr>"

definition example_seeking :: "string \<Rightarrow> pending_fetch_item option" where
  "example_seeking = map_of [(''1'', example_item ''1'' 0), (''2'', example_item ''2'' 2)]"

definition example_document :: collection_resource_document where
  "example_document =
     \<lparr> doc_data = [\<lparr> resource_id = ''1'', resource_type = ''post'', resource_attributes = [] \<rparr>],
       doc_included = None \<rparr>"

definition example_snapshots :: "snapshot list" where
  "example_snapshots =
     [\<lparr> snapshot_id = Some ''1'', snapshot_modelName = ''post'' \<rparr>,
      \<lparr> snapshot_id = Some ''2'', snapshot_modelName = ''post'' \<rparr>]"

text \<open>
  A snapshot with the id and the type of its identifier, an adapter that coalesces
  into one group, and three pending fetches made by \<open>scheduleFetch\<close>: the post 1
  with its author, the post 1 with its comments, the post 2. Their deferreds are 0, 2
  and 4. The answer of \<^verbatim>\<open>findMany\<close> has the post 2 only.
\<close>

definition example_newSnapshot :: "find_options option \<Rightarrow> record_identifier \<Rightarrow> snapshot" where
  "example_newSnapshot options i = \<lparr> snapshot_id = id_of i, snapshot_modelName = type i \<rparr>"

definition coalescing_adapter :: adapter where
  "coalescing_adapter =
     \<lparr> has_findRecord = True, has_findMany = True, coalesceFindRequests = True,
       groupRecordsForFindMany = None \<rparr>"

definition three_fetches :: fetch_manager where
  "three_fetches =
     snd (scheduleFetch (ident ''post'' ''2'') (options_including ''author'') (snd after_comments))"

definition post_2_document :: collection_resource_document where
  "post_2_document =
     \<lparr> doc_data = [\<lparr> resource_id = ''2'', resource_type = ''post'', resource_attributes = [] \<rparr>],
       doc_included = None \<rparr>"

text \<open>
  A schema with the hasMany field \<open>comments\<close> on \<open>post\<close> and the belongsTo field \<open>post\<close> on
  \<open>comment\<close>, and three remote operations.
\<close>

definition example_definitionFor :: "record_identifier \<Rightarrow> string \<Rightarrow> upgraded_meta option" where
  "example_definitionFor i f =
     (if type i = ''post'' \<and> f = ''comments'' then Some example_definition
      else if type i = ''comment'' \<and> f = ''post''
      then Some \<lparr> kind = belongsTo, key = ''post'', inverseKey = ''comments'', isAsync = False,
                  isImplicit = False, inverseIsAsync = False, inverseIsImplicit = False \<rparr>
      else None)"

definition example_operation :: "op_name \<Rightarrow> record_identifier \<Rightarrow> string option \<Rightarrow> unit operation" where
  "example_operation n i f =
     \<lparr> op = n, op_record = i, op_field = f, op_value = None, op_index = None, op_isNew = None \<rparr>"

text \<open>
  A graph whose extension is a log, and an \<open>update\<close> that does nothing but write the
  operation and the flag \<open>isRemote\<close> to that log.
\<close>

definition logging_Graph :: "(unit, (op_name \<times> bool) list) graph_scheme" where
  "logging_Graph =
     \<lparr> identifiers = Map.empty, edges = Map.empty, next_edge = 0,
       willSyncRemote' = False, willSyncLocal' = False, pushedUpdates' = no_updates,
       updatedRelationships' = [], transaction' = None, removing' = None, scheduled = [],
       \<dots> = [] \<rparr>"

definition logging_update ::
  "unit operation \<Rightarrow> bool \<Rightarrow> (unit, (op_name \<times> bool) list) graph_scheme
     \<Rightarrow> fatal + (unit, (op_name \<times> bool) list) graph_scheme" where
  "logging_update x isRemote g = Inr (graph.more_update (\<lambda>l. l @ [(op x, isRemote)]) g)"

text \<open>
  Three pushes in one turn: a replacement of a belongsTo, an update of a hasMany, a
  deletion.
\<close>

definition three_pushes :: "fatal + (unit, (op_name \<times> bool) list) graph_scheme" where
  "three_pushes =
     and_then (push example_definitionFor
                 (example_operation replaceRelatedRecord (ident ''comment'' ''1'') (Some ''post'')) logging_Graph)
       (\<lambda>g1. and_then (push example_definitionFor
                 (example_operation updateRelationship (ident ''post'' ''1'') (Some ''comments'')) g1)
       (\<lambda>g2. push example_definitionFor
                 (example_operation deleteRecord (ident ''post'' ''2'') None) g2))"

text \<open>An \<open>unload\<close> that calls \<open>remove\<close> again, and one that does nothing.\<close>

definition idle_unload :: "record_identifier \<Rightarrow> unit graph \<Rightarrow> fatal + unit graph" where
  "idle_unload i g = Inr g"

definition reentrant_unload :: "record_identifier \<Rightarrow> record_identifier \<Rightarrow> unit graph \<Rightarrow> fatal + unit graph" where
  "reentrant_unload j i g = remove idle_unload j g"

section \<open>The hasMany edge: theorems\<close>




lemma first_occurrences_of_distinct: "distinct xs \<Longrightarrow> set xs \<inter> set done' = {} \<Longrightarrow> first_occurrences done' xs = xs"
  by (induction xs arbitrary: done') auto




text \<open>
  C9. \<open>clear\<close> empties the two member sets and the two state arrays and leaves every
  other field as it was: meta, links, the flags, the definition, the owner, the
  transaction counter. So \<open>getData\<close> of a cleared edge still has the key \<open>data\<close> when the
  edge had received data, now with the empty array.
\<close>

theorem clear_frame:
  "members (clear r) = [] \<and> canonicalMembers (clear r) = []
   \<and> currentState (clear r) = [] \<and> canonicalState (clear r) = []
   \<and> meta (clear r) = meta r \<and> links (clear r) = links r \<and> state' (clear r) = state' r
   \<and> definition' (clear r) = definition' r \<and> identifier_of (clear r) = identifier_of r
   \<and> transactionRef (clear r) = transactionRef r
   \<and> willUpdateManyArray' (clear r) = willUpdateManyArray' r
   \<and> pendingManyArrayUpdates' (clear r) = pendingManyArrayUpdates' r
   \<and> payload_data (fst (getData cs (clear r))) =
       (if hasReceivedData (fst (state cs r)) then Some [] else None)
   \<and> payload_links (fst (getData cs (clear r))) = links r
   \<and> payload_meta (fst (getData cs (clear r))) = meta r"
  by (cases "state' r") (auto simp: clear_def getData_def state_def Let_def)

section \<open>Objects: lemmas\<close>





lemma set_Object_keys: "k \<in> set (Object_keys h) \<longleftrightarrow> has_key k h"
  by (simp add: Object_keys_def has_key_def map_of_eq_None_iff)


lemma strict_eq_Undefined: "strict_eq v Undefined \<longleftrightarrow> v = Undefined"
  by (auto simp: strict_eq_def)

lemma get_prop_update: "get_prop (AList.update k v a) x = (if x = k then v else get_prop a x)"
  by (simp add: get_prop_def update_conv')

lemma get_prop_delete: "get_prop (AList.delete k a) x = (if x = k then Undefined else get_prop a x)"
  by (simp add: get_prop_def delete_conv')


lemma has_key_delete: "has_key x (AList.delete k a) \<longleftrightarrow> x \<noteq> k \<and> has_key x a"
  by (simp add: has_key_def delete_conv')

lemma map_of_fold_restore:
  "map_of (fold (\<lambda>k a. if get_prop a k = Undefined
                          then AList.update k (g k) a else a) ks attrs) x =
     (if x \<in> set ks \<and> get_prop attrs x = Undefined then Some (g x) else map_of attrs x)"
proof (induction ks arbitrary: attrs)
  case Nil
  then show ?case by simp
next
  case (Cons k ks)
  show ?case
  proof (cases "get_prop attrs k = Undefined")
    case True
    then show ?thesis
      by (auto simp: Cons.IH get_prop_update update_conv')
  next
    case False
    then show ?thesis
      by (auto simp: Cons.IH)
  qed
qed

section \<open>The record cache: lemmas\<close>

lemma attributes'_fst: "fst (attributes' rd) = bucket (attributes'' rd)"
  by (simp add: attributes'_def bucket_def split: option.splits)

lemma attributes'_snd: "snd (attributes' rd) = rd\<lparr>attributes'' := Some (bucket (attributes'' rd))\<rparr>"
  by (simp add: attributes'_def bucket_def split: option.splits)

lemma inFlightAttributes'_fst: "fst (inFlightAttributes' rd) = bucket (inFlightAttributes'' rd)"
  by (simp add: inFlightAttributes'_def bucket_def split: option.splits)

lemma inFlightAttributes'_snd:
  "snd (inFlightAttributes' rd) = rd\<lparr>inFlightAttributes'' := Some (bucket (inFlightAttributes'' rd))\<rparr>"
  by (simp add: inFlightAttributes'_def bucket_def split: option.splits)

lemma data'_fst: "fst (data' rd) = bucket (data'' rd)"
  by (simp add: data'_def bucket_def split: option.splits)

lemma data'_snd: "snd (data' rd) = rd\<lparr>data'' := Some (bucket (data'' rd))\<rparr>"
  by (simp add: data'_def bucket_def split: option.splits)

lemmas getters = attributes'_fst attributes'_snd inFlightAttributes'_fst inFlightAttributes'_snd
  data'_fst data'_snd

lemma bucket_simps: "bucket None = []" "bucket (Some h) = h"
  by (simp_all add: bucket_def)

text \<open>What a notification leaves alone: everything but the log.\<close>

lemma notify_fields:
  "attributes'' (notify n rd) = attributes'' rd"
  "inFlightAttributes'' (notify n rd) = inFlightAttributes'' rd"
  "data'' (notify n rd) = data'' rd"
  "isNew' (notify n rd) = isNew' rd"
  "errors' (notify n rd) = errors' rd"
  "rd_identifier (notify n rd) = rd_identifier rd"
  "notified (storeWrapper (notify n rd)) = notified (storeWrapper rd) @ [(n, data'' rd)]"
  "relationshipsDefinitionFor (storeWrapper (notify n rd)) = relationshipsDefinitionFor (storeWrapper rd)"
  by (simp_all add: notify_def)

lemma notifyPropertyChange_fields:
  "attributes'' (notifyPropertyChange k rd) = attributes'' rd"
  "inFlightAttributes'' (notifyPropertyChange k rd) = inFlightAttributes'' rd"
  "data'' (notifyPropertyChange k rd) = data'' rd"
  "isNew' (notifyPropertyChange k rd) = isNew' rd"
  "errors' (notifyPropertyChange k rd) = errors' rd"
  "rd_identifier (notifyPropertyChange k rd) = rd_identifier rd"
  "relationshipsDefinitionFor (storeWrapper (notifyPropertyChange k rd)) = relationshipsDefinitionFor (storeWrapper rd)"
  by (simp_all add: notifyPropertyChange_def notify_fields)

lemma notifyAttributes'_fields:
  "attributes'' (notifyAttributes' ks rd) = attributes'' rd"
  "inFlightAttributes'' (notifyAttributes' ks rd) = inFlightAttributes'' rd"
  "data'' (notifyAttributes' ks rd) = data'' rd"
  "isNew' (notifyAttributes' ks rd) = isNew' rd"
  "errors' (notifyAttributes' ks rd) = errors' rd"
  "rd_identifier (notifyAttributes' ks rd) = rd_identifier rd"
  "relationshipsDefinitionFor (storeWrapper (notifyAttributes' ks rd)) = relationshipsDefinitionFor (storeWrapper rd)"
proof -
  have all: "attributes'' (fold (\<lambda>k. notifyPropertyChange (Some k)) names rd) = attributes'' rd
           \<and> inFlightAttributes'' (fold (\<lambda>k. notifyPropertyChange (Some k)) names rd) = inFlightAttributes'' rd
           \<and> data'' (fold (\<lambda>k. notifyPropertyChange (Some k)) names rd) = data'' rd
           \<and> isNew' (fold (\<lambda>k. notifyPropertyChange (Some k)) names rd) = isNew' rd
           \<and> errors' (fold (\<lambda>k. notifyPropertyChange (Some k)) names rd) = errors' rd
           \<and> rd_identifier (fold (\<lambda>k. notifyPropertyChange (Some k)) names rd) = rd_identifier rd
           \<and> relationshipsDefinitionFor (storeWrapper (fold (\<lambda>k. notifyPropertyChange (Some k)) names rd))
               = relationshipsDefinitionFor (storeWrapper rd)" for names
    by (induction names arbitrary: rd) (simp_all add: notifyPropertyChange_fields)
  show "attributes'' (notifyAttributes' ks rd) = attributes'' rd"
    "inFlightAttributes'' (notifyAttributes' ks rd) = inFlightAttributes'' rd"
    "data'' (notifyAttributes' ks rd) = data'' rd"
    "isNew' (notifyAttributes' ks rd) = isNew' rd"
    "errors' (notifyAttributes' ks rd) = errors' rd"
    "rd_identifier (notifyAttributes' ks rd) = rd_identifier rd"
    "relationshipsDefinitionFor (storeWrapper (notifyAttributes' ks rd)) = relationshipsDefinitionFor (storeWrapper rd)"
    using all by (simp_all add: notifyAttributes'_def notifyPropertyChange_fields split: option.splits)
qed

lemma setupRelationships'_fields:
  "attributes'' (setupRelationships' rels rd) = attributes'' rd"
  "inFlightAttributes'' (setupRelationships' rels rd) = inFlightAttributes'' rd"
  "data'' (setupRelationships' rels rd) = data'' rd"
  "isNew' (setupRelationships' rels rd) = isNew' rd"
  "notified (storeWrapper (setupRelationships' rels rd)) = notified (storeWrapper rd)"
proof -
  let ?step = "\<lambda>relationshipName rd1.
             case map_of rels relationshipName of
               None \<Rightarrow> rd1
             | Some relationshipData \<Rightarrow>
                 graph_push \<lparr> op = updateRelationship, op_record = rd_identifier rd1,
                              op_field = Some relationshipName, op_value = Some relationshipData,
                              op_index = None, op_isNew = None \<rparr> rd1"
  have all: "attributes'' (fold ?step names rd) = attributes'' rd
           \<and> inFlightAttributes'' (fold ?step names rd) = inFlightAttributes'' rd
           \<and> data'' (fold ?step names rd) = data'' rd
           \<and> isNew' (fold ?step names rd) = isNew' rd
           \<and> notified (storeWrapper (fold ?step names rd)) = notified (storeWrapper rd)" for names
    by (induction names arbitrary: rd) (simp_all add: graph_push_def split: option.splits)
  show "attributes'' (setupRelationships' rels rd) = attributes'' rd"
    "inFlightAttributes'' (setupRelationships' rels rd) = inFlightAttributes'' rd"
    "data'' (setupRelationships' rels rd) = data'' rd"
    "isNew' (setupRelationships' rels rd) = isNew' rd"
    "notified (storeWrapper (setupRelationships' rels rd)) = notified (storeWrapper rd)"
    using all by (simp_all add: setupRelationships'_def)
qed

lemma changedKeys'_fields:
  "attributes'' (snd (changedKeys' isEqual updates rd)) = attributes'' rd"
  "inFlightAttributes'' (snd (changedKeys' isEqual updates rd)) = inFlightAttributes'' rd"
  "bucket (data'' (snd (changedKeys' isEqual updates rd))) = bucket (data'' rd)"
  "isNew' (snd (changedKeys' isEqual updates rd)) = isNew' rd"
  "notified (storeWrapper (snd (changedKeys' isEqual updates rd))) = notified (storeWrapper rd)"
  by (auto simp: changedKeys'_def Let_def split_beta getters bucket_simps hasChangedAttributes_def
           split: option.splits)

lemma changedAttributes_fields:
  "attributes'' (snd (changedAttributes rd)) = Some (bucket (attributes'' rd))"
  "inFlightAttributes'' (snd (changedAttributes rd)) = Some (bucket (inFlightAttributes'' rd))"
  "data'' (snd (changedAttributes rd)) = Some (bucket (data'' rd))"
  "isNew' (snd (changedAttributes rd)) = isNew' rd"
  "notified (storeWrapper (snd (changedAttributes rd))) = notified (storeWrapper rd)"
  "rd_identifier (snd (changedAttributes rd)) = rd_identifier rd"
  by (simp_all add: changedAttributes_def Let_def split_beta getters)


lemma updateChangedAttributes'_fields:
  "attributes'' (updateChangedAttributes' rd) =
     Some (fold (\<lambda>(attribute, oldData, newData) a.
                    if strict_eq oldData newData then AList.delete attribute a else a)
             (fst (changedAttributes rd)) (bucket (attributes'' rd)))"
  "inFlightAttributes'' (updateChangedAttributes' rd) = Some (bucket (inFlightAttributes'' rd))"
  "data'' (updateChangedAttributes' rd) = Some (bucket (data'' rd))"
  "isNew' (updateChangedAttributes' rd) = isNew' rd"
  by (simp_all add: updateChangedAttributes'_def Let_def split_beta getters
        notifyAttributes'_fields changedAttributes_fields bucket_simps)

subsection \<open>The log of the notifications\<close>

lemma quiet_refl: "quiet rd rd"
  by (simp add: quiet_def state_changes_def)

lemma quiet_same_log: "notified (storeWrapper rd1) = notified (storeWrapper rd) \<Longrightarrow> quiet rd rd1"
  by (simp add: quiet_def state_changes_def)

lemma quiet_trans: "quiet rd rd1 \<Longrightarrow> quiet rd1 rd2 \<Longrightarrow> quiet rd rd2"
  by (auto simp: quiet_def state_changes_def)

lemma quiet_notifyPropertyChange: "quiet rd (notifyPropertyChange k rd)"
  by (simp add: quiet_def state_changes_def notifyPropertyChange_def notify_fields)

lemma quiet_fold_notifyPropertyChange: "quiet rd (fold (\<lambda>k. notifyPropertyChange (Some k)) names rd)"
proof (induction names arbitrary: rd)
  case Nil
  then show ?case by (simp add: quiet_refl)
next
  case (Cons k names)
  show ?case
    using quiet_trans [OF quiet_notifyPropertyChange Cons.IH] by simp
qed

lemma quiet_notifyAttributes': "quiet rd (notifyAttributes' ks rd)"
  by (cases ks) (simp_all add: notifyAttributes'_def quiet_notifyPropertyChange quiet_fold_notifyPropertyChange)

lemma quiet_updateChangedAttributes': "quiet rd (updateChangedAttributes' rd)"
proof -
  let ?rd3 = "(snd (attributes' (snd (changedAttributes rd))))
                \<lparr>attributes'' := Some (fold (\<lambda>(attribute, oldData, newData) a.
                    if strict_eq oldData newData then AList.delete attribute a else a)
                  (fst (changedAttributes rd)) (fst (attributes' (snd (changedAttributes rd)))))\<rparr>"
  have "quiet rd ?rd3"
    by (rule quiet_same_log) (simp add: getters changedAttributes_fields)
  moreover have "updateChangedAttributes' rd = notifyAttributes' (Some (map fst (fst (changedAttributes rd)))) ?rd3"
    by (simp add: updateChangedAttributes'_def Let_def split_beta)
  ultimately show ?thesis
    using quiet_trans [OF _ quiet_notifyAttributes'] by simp
qed

lemma pushData_new:
  "isNew' rd \<Longrightarrow>
     pushData isEqual d c rd = pushData isEqual d c (notifyStateChange (rd\<lparr>isNew' := False\<rparr>))"
  by (simp add: pushData_def notifyStateChange_def notify_fields)

lemma pushData_snd:
  "\<not> isNew' rd \<Longrightarrow> snd (pushData isEqual d c rd) =
     (let rd2 = (if c then snd (changedKeys' isEqual (res_attributes d) rd) else rd);
          rd4 = rd2\<lparr>data'' := Some (Object_assign (bucket (data'' rd2)) (bucket (res_attributes d)))\<rparr>;
          rd5 = (if attributes'' rd4 \<noteq> None then updateChangedAttributes' rd4 else rd4);
          rd6 = (case res_relationships d of None \<Rightarrow> rd5 | Some rels \<Rightarrow> setupRelationships' rels rd5)
      in if c \<and> fst (changedKeys' isEqual (res_attributes d) rd) \<noteq> []
         then notifyAttributes' (Some (fst (changedKeys' isEqual (res_attributes d) rd))) rd6
         else rd6)"
  apply (cases c)
   apply (simp_all add: pushData_def split_beta getters)
   apply (simp_all add: Let_def)
  done

lemma pushData_quiet:
  assumes "\<not> isNew' rd"
  shows "quiet rd (snd (pushData isEqual d c rd))"
proof -
  define rd2 where "rd2 = (if c then snd (changedKeys' isEqual (res_attributes d) rd) else rd)"
  define rd4 where "rd4 = rd2\<lparr>data'' := Some (Object_assign (bucket (data'' rd2)) (bucket (res_attributes d)))\<rparr>"
  define rd5 where "rd5 = (if attributes'' rd4 \<noteq> None then updateChangedAttributes' rd4 else rd4)"
  define rd6 where "rd6 = (case res_relationships d of None \<Rightarrow> rd5
                           | Some rels \<Rightarrow> setupRelationships' rels rd5)"
  define rd7 where "rd7 = (if c \<and> fst (changedKeys' isEqual (res_attributes d) rd) \<noteq> []
                           then notifyAttributes' (Some (fst (changedKeys' isEqual (res_attributes d) rd))) rd6
                           else rd6)"
  have result: "snd (pushData isEqual d c rd) = rd7"
    unfolding pushData_snd [OF assms] rd7_def rd6_def rd5_def rd4_def rd2_def Let_def ..
  have q2: "quiet rd rd2"
    by (rule quiet_same_log) (simp add: rd2_def changedKeys'_fields)
  have q4: "quiet rd2 rd4"
    by (rule quiet_same_log) (simp add: rd4_def)
  have q5: "quiet rd4 rd5"
    by (simp add: rd5_def quiet_refl quiet_updateChangedAttributes')
  have q6: "quiet rd5 rd6"
    by (rule quiet_same_log) (simp add: rd6_def setupRelationships'_fields split: option.splits)
  have q7: "quiet rd6 rd7"
    by (simp add: rd7_def quiet_refl quiet_notifyAttributes')
  show ?thesis
    unfolding result
    using quiet_trans [OF quiet_trans [OF quiet_trans [OF quiet_trans [OF q2 q4] q5] q6] q7] .
qed

lemma pushData_fields:
  assumes "\<not> isNew' rd"
  shows "isNew' (snd (pushData isEqual d c rd)) = False"
    and "bucket (data'' (snd (pushData isEqual d c rd))) =
           Object_assign (bucket (data'' rd)) (bucket (res_attributes d))"
    and "bucket (inFlightAttributes'' (snd (pushData isEqual d c rd))) = bucket (inFlightAttributes'' rd)"
  using assms
  by (auto simp: pushData_snd Let_def changedKeys'_fields notifyAttributes'_fields
        setupRelationships'_fields updateChangedAttributes'_fields bucket_simps
      split: option.splits)

lemma notifyStateChange_fields:
  "attributes'' (notifyStateChange rd) = attributes'' rd"
  "inFlightAttributes'' (notifyStateChange rd) = inFlightAttributes'' rd"
  "data'' (notifyStateChange rd) = data'' rd"
  "isNew' (notifyStateChange rd) = isNew' rd"
  "notified (storeWrapper (notifyStateChange rd)) =
     notified (storeWrapper rd) @
       [(StateChange (modelName rd) (id_of (rd_identifier rd)) (lid (rd_identifier rd)), data'' rd)]"
  by (simp_all add: notifyStateChange_def notify_fields)

lemma pushData_buckets:
  "bucket (data'' (snd (pushData isEqual d c rd))) =
     Object_assign (bucket (data'' rd)) (bucket (res_attributes d))"
  "bucket (inFlightAttributes'' (snd (pushData isEqual d c rd))) = bucket (inFlightAttributes'' rd)"
  "isNew' (snd (pushData isEqual d c rd)) = False"
proof -
  let ?rd1 = "notifyStateChange (rd\<lparr>isNew' := False\<rparr>)"
  have not_new: "\<not> isNew' ?rd1" by (simp add: notifyStateChange_fields)
  show "bucket (data'' (snd (pushData isEqual d c rd))) =
     Object_assign (bucket (data'' rd)) (bucket (res_attributes d))"
  proof (cases "isNew' rd")
    case True
    then show ?thesis
      using pushData_fields(2) [OF not_new, of isEqual d c]
      by (simp add: pushData_new notifyStateChange_fields)
  next
    case False
    then show ?thesis by (rule pushData_fields(2))
  qed
  show "bucket (inFlightAttributes'' (snd (pushData isEqual d c rd))) = bucket (inFlightAttributes'' rd)"
  proof (cases "isNew' rd")
    case True
    then show ?thesis
      using pushData_fields(3) [OF not_new, of isEqual d c]
      by (simp add: pushData_new notifyStateChange_fields)
  next
    case False
    then show ?thesis by (rule pushData_fields(3))
  qed
  show "isNew' (snd (pushData isEqual d c rd)) = False"
  proof (cases "isNew' rd")
    case True
    then show ?thesis
      using pushData_fields(1) [OF not_new, of isEqual d c]
      by (simp add: pushData_new)
  next
    case False
    then show ?thesis by (rule pushData_fields(1))
  qed
qed








section \<open>The record cache: theorems\<close>

lemmas cache_eval =
  pushData_def changedKeys'_def changedAttributes_def updateChangedAttributes'_def
  setupRelationships'_def notifyAttributes'_def notifyPropertyChange_def notifyStateChange_def
  notifyErrorsChange_def notify_def attributes'_def inFlightAttributes'_def data'_def
  hasChangedAttributes_def Object_assign_def Object_keys_def get_prop_def has_key_def strict_eq_def
  willCommit_def commitWasRejected_def setDirtyAttribute_def getAttr_def new_RecordData_def
  bucket_def modelName_def Let_def split_beta clientDidCreate_def isNew_def getErrors_def
  example_wrapper_def example_cache_def payload_name_def ident_def state_changes_def





text \<open>
  C10. On a cache that is new, \<open>pushData\<close> clears the flag and notifies one state
  change, first of all its notifications and with the confirmed bucket as it was
  before the merge; the payload is merged after. On a cache that is not new,
  \<open>pushData\<close> notifies no state change.
\<close>

theorem pushData_clears_new_flag:
  "(isNew rd \<longrightarrow>
      isNew (snd (pushData isEqual d c rd)) = False
      \<and> (\<exists>later. notified (storeWrapper (snd (pushData isEqual d c rd))) =
            notified (storeWrapper rd) @
              (StateChange (modelName rd) (id_of (rd_identifier rd)) (lid (rd_identifier rd)), data'' rd)
                # later
            \<and> state_changes later = [])
      \<and> bucket (data'' (snd (pushData isEqual d c rd))) =
            Object_assign (bucket (data'' rd)) (bucket (res_attributes d)))
   \<and> (\<not> isNew rd \<longrightarrow>
      isNew (snd (pushData isEqual d c rd)) = False
      \<and> (\<exists>later. notified (storeWrapper (snd (pushData isEqual d c rd))) =
            notified (storeWrapper rd) @ later
            \<and> state_changes later = []))"
proof -
  let ?rd1 = "notifyStateChange (rd\<lparr>isNew' := False\<rparr>)"
  have not_new: "\<not> isNew' ?rd1" by (simp add: notifyStateChange_fields)
  have new_log: "\<exists>later. notified (storeWrapper (snd (pushData isEqual d c rd))) =
            notified (storeWrapper rd) @
              (StateChange (modelName rd) (id_of (rd_identifier rd)) (lid (rd_identifier rd)), data'' rd)
                # later
            \<and> state_changes later = []" if "isNew' rd"
  proof -
    obtain later where "notified (storeWrapper (snd (pushData isEqual d c ?rd1))) =
        notified (storeWrapper ?rd1) @ later" and "state_changes later = []"
      using pushData_quiet [OF not_new, of isEqual d c] by (auto simp: quiet_def)
    then show ?thesis
      using that by (simp add: pushData_new notifyStateChange_fields modelName_def)
  qed
  have old_log: "\<exists>later. notified (storeWrapper (snd (pushData isEqual d c rd))) =
            notified (storeWrapper rd) @ later \<and> state_changes later = []" if "\<not> isNew' rd"
    using pushData_quiet [OF that, of isEqual d c] by (simp add: quiet_def)
  show ?thesis
    using new_log old_log by (simp add: isNew_def pushData_buckets)
qed

theorem pushData_clears_new_flag_witness:
  "isNew (clientDidCreate example_cache)
   \<and> isNew (snd (pushData strict_eq (payload_name ''Y'') True (clientDidCreate example_cache))) = False
   \<and> notified (storeWrapper (snd (pushData strict_eq (payload_name ''Y'') True (clientDidCreate example_cache))))
       = [(StateChange ''post'' (Some ''1'') ''@lid:post-1'', None),
          (PropertyChange ''post'' (Some ''1'') ''@lid:post-1'' (Some ''name''), Some [(''name'', JStr ''Y'')])]
   \<and> data'' (snd (pushData strict_eq (payload_name ''Y'') True (clientDidCreate example_cache)))
       = Some [(''name'', JStr ''Y'')]
   \<and> \<not> isNew example_cache
   \<and> notified (storeWrapper (snd (pushData strict_eq (payload_name ''Y'') False example_cache))) = []"
  using pushData_clears_new_flag [of "clientDidCreate example_cache" strict_eq "payload_name ''Y''" True]
    pushData_clears_new_flag [of example_cache strict_eq "payload_name ''Y''" False]
  by (simp add: cache_eval)

lemma no_keys: "Object_keys h = [] \<Longrightarrow> \<not> has_key x h"
  by (simp add: Object_keys_def has_key_def)

lemma commitWasRejected_fields:
  "map_of (bucket (attributes'' (commitWasRejected errors rd))) x =
     (if has_key x (bucket (inFlightAttributes'' rd)) \<and> get_prop (bucket (attributes'' rd)) x = Undefined
      then Some (get_prop (bucket (inFlightAttributes'' rd)) x)
      else map_of (bucket (attributes'' rd)) x)"
  "inFlightAttributes'' (commitWasRejected errors rd) = None"
  "getErrors (commitWasRejected errors rd) = (case errors of None \<Rightarrow> getErrors rd | Some e \<Rightarrow> e)"
proof -
  show "map_of (bucket (attributes'' (commitWasRejected errors rd))) x =
     (if has_key x (bucket (inFlightAttributes'' rd)) \<and> get_prop (bucket (attributes'' rd)) x = Undefined
      then Some (get_prop (bucket (inFlightAttributes'' rd)) x)
      else map_of (bucket (attributes'' rd)) x)"
  proof (cases "Object_keys (bucket (inFlightAttributes'' rd)) = []")
    case True
    then show ?thesis
      using no_keys [OF True, of x]
      by (simp add: commitWasRejected_def Let_def split_beta getters notifyErrorsChange_def notify_fields
            split: option.splits)
  next
    case False
    then show ?thesis
      by (simp add: commitWasRejected_def Let_def split_beta getters notifyErrorsChange_def notify_fields
            bucket_simps strict_eq_Undefined map_of_fold_restore set_Object_keys
            split: option.splits)
  qed
  show "inFlightAttributes'' (commitWasRejected errors rd) = None"
    by (simp add: commitWasRejected_def Let_def split_beta getters notifyErrorsChange_def notify_fields
          split: option.splits)
  show "getErrors (commitWasRejected errors rd) = (case errors of None \<Rightarrow> getErrors rd | Some e \<Rightarrow> e)"
    by (simp add: commitWasRejected_def Let_def split_beta getters notifyErrorsChange_def notify_fields
          getErrors_def split: option.splits)
qed

text \<open>
  C5. The claim holds for every key whose dirty value is not \<^verbatim>\<open>undefined\<close>
  (\<open>commitWasRejected_fields\<close>). It fails for a key that the user has set to
  \<^verbatim>\<open>undefined\<close> while the save was in flight: the key is in \<^verbatim>\<open>_attributes\<close> and
  \<open>getAttr\<close> returns \<^verbatim>\<open>undefined\<close>, but \<open>commitWasRejected\<close> tests
  \<^verbatim>\<open>attrs[key] === undefined\<close> and writes the value in flight over it.
\<close>

theorem commitWasRejected_overwrites_undefined:
  "has_key ''name'' (bucket (attributes'' (setDirtyAttribute ''name'' Undefined in_flight_cache)))
   \<and> fst (getAttr ''name'' (setDirtyAttribute ''name'' Undefined in_flight_cache)) = Undefined
   \<and> fst (getAttr ''name''
         (commitWasRejected None (setDirtyAttribute ''name'' Undefined in_flight_cache))) = JStr ''W''"
  by (simp add: in_flight_cache_def cache_eval)

section \<open>The fetch manager: theorems\<close>

lemmas fetch_eval =
  scheduleFetch_def getPendingFetch_def isSameRequest_def new_FetchManager_def pending_for_def
  options_including_def ident_def Let_def after_author_def after_comments_def after_comments_again_def

lemma scheduleFetch_reuses:
  "getPendingFetch i options fm = Some p \<Longrightarrow> scheduleFetch i options fm = (p, fm)"
  by (simp add: scheduleFetch_def)

lemma find_append_new:
  "find P xs = None \<Longrightarrow> P x \<Longrightarrow> find P (xs @ [x]) = Some x"
  by (induction xs) (auto split: if_splits)

lemma scheduleFetch_twice:
  assumes fresh: "getPendingFetch i options fm = None"
    and none: "case map_of (pendingFetch' fm) (type i) of None \<Rightarrow> True
               | Some l \<Rightarrow> find (\<lambda>fetch. fetch_identifier fetch = i) l = None"
    and same: "isSameRequest options1 options"
  shows "scheduleFetch i options1 (snd (scheduleFetch i options fm)) = scheduleFetch i options fm"
proof -
  have "getPendingFetch i options1 (snd (scheduleFetch i options fm)) = Some (fst (scheduleFetch i options fm))"
    using fresh none same
    by (auto simp: scheduleFetch_def getPendingFetch_def Let_def update_conv' find_append_new
          split: option.splits)
  then show ?thesis
    by (simp add: scheduleFetch_reuses)
qed

text \<open>
  C3. The claim holds when the first pending item of the identifier has equivalent
  options (\<open>scheduleFetch_reuses\<close>), so for two calls in a row
  (\<open>scheduleFetch_twice\<close>). It fails when an earlier request for the same
  identifier with other options is pending: \<open>getPendingFetch\<close> compares the options
  with the first item of the identifier only. The third call below repeats the
  second, whose promise 3 is pending, and gets the new promise 5 and a new entry
  in the table.
\<close>

theorem scheduleFetch_duplicate_entry:
  "fst after_comments = 3 \<and> fst after_comments_again = 5
   \<and> map (\<lambda>fetch. (promise fetch, include_of (fetch_options fetch)))
        (concat (map snd (pendingFetch' (snd after_comments_again))))
       = [(1, Some ''author''), (3, Some ''comments''), (5, Some ''comments'')]
   \<and> map promise (pending_for (ident ''post'' ''1'') (options_including ''comments'') (snd after_comments_again))
       = [3, 5]"
  by (simp add: fetch_eval)

lemma resolve_found_found:
  "fst (resolve_found seeking included payloads (found, ds)) i = None \<longleftrightarrow>
     found i = None \<and> i \<notin> resource_id ` set payloads"
  by (induction payloads arbitrary: found ds) auto

lemma resolve_found_settled:
  "ds r \<noteq> None \<Longrightarrow> snd (resolve_found seeking included payloads (found, ds)) r = ds r"
  by (induction payloads arbitrary: found ds) (auto simp: resolve_def split: option.splits)

lemma resolve_found_other:
  "\<forall>x \<in> set payloads. \<forall>p. seeking (resource_id x) = Some p \<longrightarrow> resolver p \<noteq> r \<Longrightarrow>
     snd (resolve_found seeking included payloads (found, ds)) r = ds r"
  by (induction payloads arbitrary: found ds) (auto simp: resolve_def split: option.splits)

lemma resolve_found_first:
  assumes "seeking i = Some p" and "ds (resolver p) = None"
    and "\<forall>j q. seeking j = Some q \<longrightarrow> resolver q = resolver p \<longrightarrow> j = i"
  shows "snd (resolve_found seeking included payloads (found, ds)) (resolver p) =
           (case find (\<lambda>x. resource_id x = i) payloads of
              None \<Rightarrow> None
            | Some x \<Rightarrow> Some (Resolved \<lparr> single_data = x, single_included = included \<rparr>))"
  using assms(2)
proof (induction payloads arbitrary: found ds)
  case Nil
  then show ?case by simp
next
  case (Cons x payloads)
  show ?case
  proof (cases "resource_id x = i")
    case True
    then show ?thesis
      using assms(1) Cons.prems
      by (simp add: resolve_found_settled resolve_def)
  next
    case False
    have "(case seeking (resource_id x) of None \<Rightarrow> ds
           | Some pair \<Rightarrow> resolve (resolver pair) \<lparr> single_data = x, single_included = included \<rparr> ds)
            (resolver p) = None"
      using False assms(3) Cons.prems by (auto simp: resolve_def split: option.splits)
    then show ?thesis
      using False Cons.IH by simp
  qed
qed

lemma missing_snapshots_filter:
  "\<forall>s \<in> set expected. snapshot_id s \<noteq> None \<Longrightarrow>
     missing_snapshots found expected = Inr (filter (\<lambda>s. found (the (snapshot_id s)) = None) expected)"
  by (induction expected) (auto simp: and_then_def assertIsString_def)

lemma rejectFetchedItems_total:
  "\<forall>s \<in> set snapshots. snapshot_id s \<noteq> None \<Longrightarrow> \<exists>ds1. rejectFetchedItems seeking snapshots error ds = Inr ds1"
  by (induction snapshots arbitrary: ds) (auto simp: and_then_def assertIsString_def)

lemma rejectFetchedItems_settled:
  "rejectFetchedItems seeking snapshots error ds = Inr ds1 \<Longrightarrow> ds r \<noteq> None \<Longrightarrow> ds1 r = ds r"
proof (induction snapshots arbitrary: ds)
  case Nil
  then show ?case by simp
next
  case (Cons s snapshots)
  then show ?case
    by (cases "snapshot_id s")
       (auto simp: and_then_def assertIsString_def reject_def split: option.splits)
qed

lemma rejectFetchedItems_other:
  "rejectFetchedItems seeking snapshots error ds = Inr ds1 \<Longrightarrow>
     \<forall>s \<in> set snapshots. \<forall>i p. snapshot_id s = Some i \<longrightarrow> seeking i = Some p \<longrightarrow> resolver p \<noteq> r \<Longrightarrow>
     ds1 r = ds r"
proof (induction snapshots arbitrary: ds)
  case Nil
  then show ?case by simp
next
  case (Cons s snapshots)
  then show ?case
    by (cases "snapshot_id s")
       (auto simp: and_then_def assertIsString_def reject_def split: option.splits)
qed

lemma rejectFetchedItems_first:
  assumes "seeking i = Some p"
    and "\<forall>j q. seeking j = Some q \<longrightarrow> resolver q = resolver p \<longrightarrow> j = i"
  shows "rejectFetchedItems seeking snapshots None ds = Inr ds1 \<Longrightarrow> ds (resolver p) = None \<Longrightarrow>
         ds1 (resolver p) =
           (case find (\<lambda>s. snapshot_id s = Some i) snapshots of
              None \<Rightarrow> None
            | Some s \<Rightarrow> Some (Rejected (NotFoundInPayload (snapshot_modelName s) i)))"
proof (induction snapshots arbitrary: ds)
  case Nil
  then show ?case by simp
next
  case (Cons s snapshots)
  show ?case
  proof (cases "snapshot_id s")
    case None
    then show ?thesis
      using Cons.prems by (simp add: and_then_def assertIsString_def)
  next
    case (Some j)
    let ?ds = "case seeking j of None \<Rightarrow> ds
               | Some pair \<Rightarrow> reject (resolver pair) (NotFoundInPayload (snapshot_modelName s) j) ds"
    have run: "rejectFetchedItems seeking snapshots None ?ds = Inr ds1"
      using Cons.prems(1) Some
      by (cases "seeking j") (simp_all add: and_then_def assertIsString_def)
    show ?thesis
    proof (cases "j = i")
      case True
      have "?ds (resolver p) = Some (Rejected (NotFoundInPayload (snapshot_modelName s) i))"
        using True assms(1) Cons.prems(2) by (simp add: reject_def)
      then show ?thesis
        using rejectFetchedItems_settled [OF run, of "resolver p"] Some True by simp
    next
      case False
      have "?ds (resolver p) = None"
        using False assms(2) Cons.prems(2) by (auto simp: reject_def split: option.splits)
      then show ?thesis
        using Cons.IH [OF run] Some False by simp
    qed
  qed
qed

lemma find_filter_same: "(\<And>x. P x \<Longrightarrow> Q x) \<Longrightarrow> find P (filter Q xs) = find P xs"
  by (induction xs) auto

lemma find_member: "x \<in> set xs \<Longrightarrow> P x \<Longrightarrow> \<exists>y. find P xs = Some y \<and> P y"
  by (induction xs) auto

text \<open>
  What \<open>handleFoundRecords\<close> does for the pending items that \<open>seeking\<close> holds. Let every
  expected snapshot have an id, and let the pending items of different ids have
  different deferreds. Then \<open>handleFoundRecords\<close> returns, and afterwards: the pending
  deferred of every expected snapshot whose id is not among the ids of the primary
  data is rejected with the not-found error that names the model and the id; the
  pending deferred of every id that is among the primary data is resolved with the
  first payload of that id (and the included records); a deferred that was settled,
  or that belongs to no item of \<open>seeking\<close>, is as it was.
\<close>

theorem handleFoundRecords_settles:
  assumes ids: "\<forall>s \<in> set expected. snapshot_id s \<noteq> None"
    and inj: "\<forall>i j p q. seeking i = Some p \<longrightarrow> seeking j = Some q \<longrightarrow> resolver p = resolver q \<longrightarrow> i = j"
  shows "\<exists>ds1 warnings1.
           handleFoundRecords seeking doc expected (ds, warnings) = Inr (ds1, warnings1)
         \<and> (\<forall>s \<in> set expected. \<forall>i p.
               snapshot_id s = Some i \<longrightarrow> i \<notin> resource_id ` set (doc_data doc) \<longrightarrow> seeking i = Some p \<longrightarrow>
               ds (resolver p) = None \<longrightarrow>
               (\<exists>s0. find (\<lambda>s1. snapshot_id s1 = Some i) expected = Some s0
                  \<and> ds1 (resolver p) = Some (Rejected (NotFoundInPayload (snapshot_modelName s0) i))))
         \<and> (\<forall>x \<in> set (doc_data doc). \<forall>p.
               seeking (resource_id x) = Some p \<longrightarrow> ds (resolver p) = None \<longrightarrow>
               (\<exists>x0. find (\<lambda>y. resource_id y = resource_id x) (doc_data doc) = Some x0
                  \<and> ds1 (resolver p) =
                      Some (Resolved \<lparr> single_data = x0,
                              single_included =
                                (case doc_included doc of None \<Rightarrow> [] | Some inc \<Rightarrow> inc) @ doc_data doc \<rparr>)))
         \<and> (\<forall>r. ds r \<noteq> None \<or> (\<forall>i p. seeking i = Some p \<longrightarrow> resolver p \<noteq> r) \<longrightarrow> ds1 r = ds r)"
proof -
  let ?payloads = "doc_data doc"
  let ?included = "(case doc_included doc of None \<Rightarrow> [] | Some inc \<Rightarrow> inc) @ ?payloads"
  let ?loop = "resolve_found seeking ?included ?payloads (Map.empty, ds)"
  let ?found = "fst ?loop"
  let ?ds1 = "snd ?loop"
  let ?missing = "filter (\<lambda>s. ?found (the (snapshot_id s)) = None) expected"
  have found: "?found i = None \<longleftrightarrow> i \<notin> resource_id ` set ?payloads" for i
    using resolve_found_found [of seeking ?included ?payloads Map.empty ds i]
    by simp
  have missing: "missing_snapshots ?found expected = Inr ?missing"
    using ids by (rule missing_snapshots_filter)
  have ids_missing: "\<forall>s \<in> set ?missing. snapshot_id s \<noteq> None"
    using ids by simp
  obtain ds2 where ds2: "rejectFetchedItems seeking ?missing None ?ds1 = Inr ds2"
    using rejectFetchedItems_total [OF ids_missing] by blast
  define final where "final = (if ?missing \<noteq> [] then ds2 else ?ds1)"
  define warnings1 where
    "warnings1 = (if ?missing \<noteq> [] then warnings @ [map snapshot_id ?missing] else warnings)"
  have result: "handleFoundRecords seeking doc expected (ds, warnings) = Inr (final, warnings1)"
    by (simp add: handleFoundRecords_def Let_def split_beta missing and_then_def ds2
          final_def warnings1_def)
  have final_run: "rejectFetchedItems seeking ?missing None ?ds1 = Inr final"
  proof (cases "?missing = []")
    case True
    then show ?thesis by (simp add: final_def)
  next
    case False
    then show ?thesis by (simp add: final_def ds2)
  qed
  have resolved_at: "?ds1 (resolver p) =
      (case find (\<lambda>x. resource_id x = i) ?payloads of
         None \<Rightarrow> None
       | Some x \<Rightarrow> Some (Resolved \<lparr> single_data = x, single_included = ?included \<rparr>))"
    if "seeking i = Some p" and unsettled: "ds (resolver p) = None" for i p
  proof -
    have only: "\<forall>j q. seeking j = Some q \<longrightarrow> resolver q = resolver p \<longrightarrow> j = i"
      using inj that by blast
    show ?thesis
      by (rule resolve_found_first [of seeking i p ds ?included ?payloads Map.empty, OF that(1) unsettled only])
  qed
  have rejected: "\<exists>s0. find (\<lambda>s1. snapshot_id s1 = Some i) expected = Some s0
                    \<and> final (resolver p) = Some (Rejected (NotFoundInPayload (snapshot_modelName s0) i))"
    if s: "s \<in> set expected" "snapshot_id s = Some i"
      and absent: "i \<notin> resource_id ` set ?payloads"
      and pair: "seeking i = Some p" and pending: "ds (resolver p) = None" for s i p
  proof -
    have "find (\<lambda>x. resource_id x = i) ?payloads = None"
      using absent by (auto simp: find_None_iff)
    then have unsettled: "?ds1 (resolver p) = None"
      using resolved_at [OF pair pending] by simp
    have only: "\<forall>j q. seeking j = Some q \<longrightarrow> resolver q = resolver p \<longrightarrow> j = i"
      using inj pair by blast
    have same: "find (\<lambda>s1. snapshot_id s1 = Some i) ?missing = find (\<lambda>s1. snapshot_id s1 = Some i) expected"
      by (rule find_filter_same) (simp add: found absent)
    obtain s0 where s0: "find (\<lambda>s1. snapshot_id s1 = Some i) expected = Some s0"
      using find_member [OF s(1), of "\<lambda>s1. snapshot_id s1 = Some i"] s(2) by blast
    have "final (resolver p) = Some (Rejected (NotFoundInPayload (snapshot_modelName s0) i))"
      using rejectFetchedItems_first [of seeking i p ?missing ?ds1 final, OF pair only final_run unsettled]
        same s0
      by simp
    then show ?thesis using s0 by blast
  qed
  have resolved: "\<exists>x0. find (\<lambda>y. resource_id y = resource_id x) ?payloads = Some x0
                    \<and> final (resolver p) = Some (Resolved \<lparr> single_data = x0, single_included = ?included \<rparr>)"
    if x: "x \<in> set ?payloads" and pair: "seeking (resource_id x) = Some p"
      and pending: "ds (resolver p) = None" for x p
  proof -
    obtain x0 where x0: "find (\<lambda>y. resource_id y = resource_id x) ?payloads = Some x0"
      using find_member [OF x, of "\<lambda>y. resource_id y = resource_id x"] by blast
    have settled: "?ds1 (resolver p) = Some (Resolved \<lparr> single_data = x0, single_included = ?included \<rparr>)"
      using resolved_at [OF pair pending] x0 by simp
    have "final (resolver p) = ?ds1 (resolver p)"
      using rejectFetchedItems_settled [OF final_run, of "resolver p"] settled by simp
    then show ?thesis using x0 settled by simp
  qed
  have frame: "final r = ds r"
    if "ds r \<noteq> None \<or> (\<forall>i p. seeking i = Some p \<longrightarrow> resolver p \<noteq> r)" for r
  proof (cases "ds r \<noteq> None")
    case True
    have "?ds1 r = ds r"
      using True resolve_found_settled [of ds r seeking ?included ?payloads Map.empty] by simp
    moreover have "final r = ?ds1 r"
      using rejectFetchedItems_settled [OF final_run, of r] True calculation by simp
    ultimately show ?thesis by simp
  next
    case False
    then have other: "\<forall>i p. seeking i = Some p \<longrightarrow> resolver p \<noteq> r"
      using that by blast
    have "?ds1 r = ds r"
      using other resolve_found_other [of ?payloads seeking r ?included Map.empty ds] by (simp add: split_beta)
    moreover have "final r = ?ds1 r"
      using other rejectFetchedItems_other [OF final_run, of r] by blast
    ultimately show ?thesis by simp
  qed
  show ?thesis
    using result rejected resolved frame by blast
qed

theorem handleFoundRecords_settles_witness:
  "\<exists>ds1 warnings1.
     handleFoundRecords example_seeking example_document example_snapshots (Map.empty, []) = Inr (ds1, warnings1)
     \<and> ds1 2 = Some (Rejected (NotFoundInPayload ''post'' ''2''))
     \<and> ds1 0 = Some (Resolved \<lparr> single_data = hd (doc_data example_document),
                                 single_included = doc_data example_document \<rparr>)
     \<and> ds1 7 = None"
proof -
  have ids: "\<forall>s \<in> set example_snapshots. snapshot_id s \<noteq> None"
    by (simp add: example_snapshots_def)
  have inj: "\<forall>i j p q. example_seeking i = Some p \<longrightarrow> example_seeking j = Some q
               \<longrightarrow> resolver p = resolver q \<longrightarrow> i = j"
    by (auto simp: example_seeking_def example_item_def split: if_splits)
  obtain ds1 warnings1 where
    run: "handleFoundRecords example_seeking example_document example_snapshots (Map.empty, []) = Inr (ds1, warnings1)"
    and rejected: "\<forall>s \<in> set example_snapshots. \<forall>i p.
               snapshot_id s = Some i \<longrightarrow> i \<notin> resource_id ` set (doc_data example_document)
               \<longrightarrow> example_seeking i = Some p \<longrightarrow> (Map.empty :: deferreds) (resolver p) = None \<longrightarrow>
               (\<exists>s0. find (\<lambda>s1. snapshot_id s1 = Some i) example_snapshots = Some s0
                  \<and> ds1 (resolver p) = Some (Rejected (NotFoundInPayload (snapshot_modelName s0) i)))"
    and resolved: "\<forall>x \<in> set (doc_data example_document). \<forall>p.
               example_seeking (resource_id x) = Some p \<longrightarrow> (Map.empty :: deferreds) (resolver p) = None \<longrightarrow>
               (\<exists>x0. find (\<lambda>y. resource_id y = resource_id x) (doc_data example_document) = Some x0
                  \<and> ds1 (resolver p) =
                      Some (Resolved \<lparr> single_data = x0,
                              single_included =
                                (case doc_included example_document of None \<Rightarrow> [] | Some inc \<Rightarrow> inc)
                                  @ doc_data example_document \<rparr>))"
    and frame: "\<forall>r. (Map.empty :: deferreds) r \<noteq> None
                  \<or> (\<forall>i p. example_seeking i = Some p \<longrightarrow> resolver p \<noteq> r) \<longrightarrow> ds1 r = Map.empty r"
    using handleFoundRecords_settles [OF ids inj, where doc = example_document and ds = Map.empty
        and warnings = "[]"]
    by blast
  have r2: "ds1 2 = Some (Rejected (NotFoundInPayload ''post'' ''2''))"
    using rejected
    by (simp add: example_snapshots_def example_document_def example_seeking_def example_item_def)
  have r0: "ds1 0 = Some (Resolved \<lparr> single_data = hd (doc_data example_document),
                                 single_included = doc_data example_document \<rparr>)"
    using resolved
    by (simp add: example_document_def example_seeking_def example_item_def)
  have "\<forall>i p. example_seeking i = Some p \<longrightarrow> resolver p \<noteq> 7"
    by (auto simp: example_seeking_def example_item_def split: if_splits)
  then have r7: "ds1 7 = None"
    using frame by simp
  from run r2 r0 r7 show ?thesis by blast
qed

lemmas flush_eval =
  flushPendingFetchForType'_def processCoalescedGroup'_def fetchRecord'_def seeking_of_def
  optionsMap_of_def key_of_id_def handleFoundRecords_def and_then_def assertIsString_def
  resolve_def reject_def example_newSnapshot_def coalescing_adapter_def three_fetches_def
  post_2_document_def split_beta

lemma three_fetches_table:
  "map_of (pendingFetch' three_fetches) ''post'' =
     Some [\<lparr> fetch_identifier = ident ''post'' ''1'',
             queryRequest = [\<lparr> query_op = ''findRecord'', recordIdentifier = ident ''post'' ''1'',
                              query_options = options_including ''author'' \<rparr>],
             resolver = 0, fetch_options = options_including ''author'', promise = 1 \<rparr>,
           \<lparr> fetch_identifier = ident ''post'' ''1'',
             queryRequest = [\<lparr> query_op = ''findRecord'', recordIdentifier = ident ''post'' ''1'',
                              query_options = options_including ''comments'' \<rparr>],
             resolver = 2, fetch_options = options_including ''comments'', promise = 3 \<rparr>,
           \<lparr> fetch_identifier = ident ''post'' ''2'',
             queryRequest = [\<lparr> query_op = ''findRecord'', recordIdentifier = ident ''post'' ''2'',
                              query_options = options_including ''author'' \<rparr>],
             resolver = 4, fetch_options = options_including ''author'', promise = 5 \<rparr>]"
  by (simp add: three_fetches_def fetch_eval)

text \<open>
  C4. The claim holds for the pending fetches that \<open>seeking\<close> holds
  (\<open>handleFoundRecords_settles\<close>), and \<open>seeking\<close> holds one pending fetch per id: the
  flush writes \<^verbatim>\<open>seeking[identifier.id] = pendingItem\<close>, so of two pending fetches of one
  record the later takes the place of the earlier. Below, the posts 1 (with its
  author), 1 (with its comments) and 2 are pending with the deferreds 0, 2 and 4, the
  flush asks for all three in one \<^verbatim>\<open>findMany\<close>, and the answer has the post 2 only. The
  deferred 4 is resolved and the deferred 2 is rejected as not found, but the
  deferred 0, whose id is absent from the answer as well, is neither rejected nor
  resolved: it stays pending.
\<close>

theorem flush_leaves_shadowed_fetch_pending:
  "map resolver (concat (map snd (pendingFetch' three_fetches))) = [0, 2, 4]
   \<and> (\<exists>seeking group ds1 warnings1.
        flushPendingFetchForType' example_newSnapshot coalescing_adapter
          (concat (map snd (pendingFetch' three_fetches))) ''post''
          = Inr (seeking, [FindMany ''post'' [Some ''1'', Some ''1'', Some ''2''] group])
        \<and> handleFoundRecords seeking post_2_document group (Map.empty, []) = Inr (ds1, warnings1)
        \<and> ds1 0 = None
        \<and> ds1 2 = Some (Rejected (NotFoundInPayload ''post'' ''1''))
        \<and> ds1 4 = Some (Resolved \<lparr> single_data = hd (doc_data post_2_document),
                                    single_included = doc_data post_2_document \<rparr>))"
  by (simp add: fetch_eval flush_eval)

section \<open>The graph: theorems\<close>

lemma and_then_simps:
  "and_then (Inl e) f = Inl e"
  "and_then (Inr x) f = f x"
  by (simp_all add: and_then_def)

lemma and_then_assoc: "and_then (and_then r f) h = and_then r (\<lambda>x. and_then (f x) h)"
  by (cases r) (simp_all add: and_then_def)

lemma apply_updates_append:
  "apply_updates update (xs @ ys) g = and_then (apply_updates update xs g) (apply_updates update ys)"
proof (induction xs arbitrary: g)
  case Nil
  then show ?case by (simp add: and_then_simps)
next
  case (Cons x xs)
  show ?case
    by (cases "update x True g") (simp_all add: and_then_simps Cons.IH)
qed

lemma emptied_updates:
  "(p :: 'v pushed_updates)\<lparr>pu_deletions := [], pu_hasMany := [], pu_belongsTo := []\<rparr> = no_updates"
  by (cases p) (simp add: no_updates_def)

lemma apply_updates_keeps:
  assumes "\<forall>x g0 g1. update x True g0 = Inr g1 \<longrightarrow> pushedUpdates' g1 = pushedUpdates' g0"
  shows "apply_updates update xs g = Inr g1 \<Longrightarrow> pushedUpdates' g1 = pushedUpdates' g"
proof (induction xs arbitrary: g)
  case Nil
  then show ?case by simp
next
  case (Cons x xs)
  then obtain g0 where step: "update x True g = Inr g0" and rest: "apply_updates update xs g0 = Inr g1"
    by (cases "update x True g") (auto simp: and_then_simps)
  have "pushedUpdates' g0 = pushedUpdates' g"
    using assms step by blast
  then show ?case
    using Cons.IH [OF rest] by simp
qed

lemma apply_updates_total:
  assumes "\<forall>x g0. \<exists>g1. update x True g0 = Inr g1"
  shows "\<exists>g1. apply_updates update xs g = Inr g1"
proof (induction xs arbitrary: g)
  case Nil
  then show ?case by simp
next
  case (Cons x xs)
  obtain g0 where "update x True g = Inr g0"
    using assms by blast
  then show ?case
    using Cons.IH [of g0] by (simp add: and_then_simps)
qed

lemma flushRemoteQueue_idle: "\<not> willSyncRemote' g \<Longrightarrow> flushRemoteQueue' update g = Inr g"
  by (simp add: flushRemoteQueue'_def)

lemma finalize'_fields:
  "pushedUpdates' (finalize' g) = pushedUpdates' g"
  "willSyncRemote' (finalize' g) = willSyncRemote' g"
  "transaction' (finalize' g) = None"
  "removing' (finalize' g) = removing' g"
  "identifiers (finalize' g) = identifiers g"
  by (simp_all add: finalize'_def split: option.splits)

text \<open>
  C1. A run of the coalesce pass that \<open>push\<close> has scheduled (\<open>push\<close> sets
  \<open>willSyncRemote'\<close> with every operation that it buffers) starts a transaction, empties
  the three buffers, and applies \<open>update x True\<close> to every operation \<open>x\<close> that was
  buffered: first the deletions, then the hasMany updates, then the belongsTo
  updates, each buffer in the order of the pushes; a raise of an update ends the
  pass. Then it finalizes. When no update writes the buffers, they are empty
  after the pass; when no update raises, the pass returns.
\<close>

theorem flushRemoteQueue_applies_in_order:
  assumes "willSyncRemote' g"
  shows "flushRemoteQueue' update g =
           and_then
             (apply_updates update (buffered g)
                (g\<lparr>transaction' := Some [], willSyncRemote' := False, pushedUpdates' := no_updates\<rparr>))
             (\<lambda>g1. Inr (finalize' g1))
       \<and> ((\<forall>x g0 g1. update x True g0 = Inr g1 \<longrightarrow> pushedUpdates' g1 = pushedUpdates' g0)
            \<longrightarrow> (\<forall>g1. flushRemoteQueue' update g = Inr g1 \<longrightarrow> pushedUpdates' g1 = no_updates))
       \<and> ((\<forall>x g0. \<exists>g1. update x True g0 = Inr g1)
            \<longrightarrow> (\<exists>g1. flushRemoteQueue' update g = Inr g1))"
proof -
  let ?g2 = "g\<lparr>transaction' := Some [], willSyncRemote' := False, pushedUpdates' := no_updates\<rparr>"
  have run: "flushRemoteQueue' update g =
               and_then (apply_updates update (buffered g) ?g2) (\<lambda>g1. Inr (finalize' g1))"
    using assms
    by (simp add: flushRemoteQueue'_def Let_def buffered_def apply_updates_append and_then_assoc
          emptied_updates)
  have emptied: "pushedUpdates' g1 = no_updates"
    if keeps: "\<forall>x g0 g1. update x True g0 = Inr g1 \<longrightarrow> pushedUpdates' g1 = pushedUpdates' g0"
      and finished: "flushRemoteQueue' update g = Inr g1" for g1
  proof -
    obtain g5 where g5: "apply_updates update (buffered g) ?g2 = Inr g5" and g1: "g1 = finalize' g5"
      using finished unfolding run
      by (cases "apply_updates update (buffered g) ?g2") (auto simp: and_then_simps)
    have "pushedUpdates' g5 = pushedUpdates' ?g2"
      using apply_updates_keeps [OF keeps g5] .
    then show ?thesis
      by (simp add: g1 finalize'_fields)
  qed
  have returns: "\<exists>g1. flushRemoteQueue' update g = Inr g1"
    if total: "\<forall>x g0. \<exists>g1. update x True g0 = Inr g1"
  proof -
    obtain g5 where "apply_updates update (buffered g) ?g2 = Inr g5"
      using total apply_updates_total [of update "buffered g" ?g2] by blast
    then show ?thesis
      by (simp add: run and_then_simps)
  qed
  show ?thesis
    using run emptied returns by blast
qed

lemma get_keeps:
  "get definitionFor i f g = Inr (a, g1) \<Longrightarrow>
     pushedUpdates' g1 = pushedUpdates' g \<and> willSyncRemote' g1 = willSyncRemote' g
     \<and> removing' g1 = removing' g"
  by (auto simp: get_def Let_def split: if_splits option.splits)

lemma push_buffers:
  assumes "push definitionFor x g = Inr g1"
  shows "willSyncRemote' g1
       \<and> (pushedUpdates' g1 = (pushedUpdates' g)\<lparr>pu_deletions := pu_deletions (pushedUpdates' g) @ [x]\<rparr>
          \<or> pushedUpdates' g1 = (pushedUpdates' g)\<lparr>pu_hasMany := pu_hasMany (pushedUpdates' g) @ [x]\<rparr>
          \<or> pushedUpdates' g1 = (pushedUpdates' g)\<lparr>pu_belongsTo := pu_belongsTo (pushedUpdates' g) @ [x]\<rparr>)"
proof (cases "op x = deleteRecord \<or> op x = replaceRelatedRecord")
  case True
  then show ?thesis
    using assms by (auto simp: push_def and_then_simps schedule_coalesce_def split: if_splits)
next
  case False
  then obtain f a g0 e where f: "op_field x = Some f" and got: "get definitionFor (op_record x) f g = Inr (a, g0)"
    and e: "edges g0 a = Some e"
    using assms
    by (auto simp: push_def and_then_def split: option.splits sum.splits if_splits)
  have keeps: "pushedUpdates' g0 = pushedUpdates' g"
    using get_keeps [OF got] by simp
  show ?thesis
    using assms False f got e keeps
    by (auto simp: push_def and_then_simps schedule_coalesce_def split: if_splits)
qed

lemmas graph_eval =
  push_def get_def and_then_def schedule_coalesce_def new_edge_def new_ManyRelationship_def
  flushRemoteQueue'_def finalize'_def remove_def Let_def no_updates_def buffered_def
  example_definitionFor_def example_operation_def example_definition_def ident_def
  logging_Graph_def logging_update_def three_pushes_def idle_unload_def reentrant_unload_def
  new_Graph_def

lemma three_pushes_buffers:
  "\<exists>g. three_pushes = Inr g \<and> willSyncRemote' g \<and> scheduled g = [coalesce]
     \<and> map op (pu_deletions (pushedUpdates' g)) = [deleteRecord]
     \<and> map op (pu_hasMany (pushedUpdates' g)) = [updateRelationship]
     \<and> map op (pu_belongsTo (pushedUpdates' g)) = [replaceRelatedRecord]
     \<and> graph.more g = []"
  by (simp add: graph_eval)

theorem flushRemoteQueue_applies_in_order_witness:
  "\<exists>g g1. three_pushes = Inr g \<and> willSyncRemote' g
     \<and> flushRemoteQueue' logging_update g = Inr g1
     \<and> graph.more g1 = [(deleteRecord, True), (updateRelationship, True), (replaceRelatedRecord, True)]
     \<and> pushedUpdates' g1 = no_updates \<and> transaction' g1 = None \<and> \<not> willSyncRemote' g1"
proof -
  obtain g where g: "three_pushes = Inr g" and flag: "willSyncRemote' g"
    and buf: "map op (buffered g) = [deleteRecord, updateRelationship, replaceRelatedRecord]"
    and log: "graph.more g = []"
    using three_pushes_buffers by (auto simp: buffered_def)
  let ?g2 = "g\<lparr>transaction' := Some [], willSyncRemote' := False, pushedUpdates' := no_updates\<rparr>"
  have all: "apply_updates logging_update xs g0 =
               Inr (graph.more_update (\<lambda>l. l @ map (\<lambda>x. (op x, True)) xs) g0)" for xs g0
    by (induction xs arbitrary: g0) (simp_all add: and_then_simps logging_update_def)
  have run: "flushRemoteQueue' logging_update g =
               Inr (finalize' (graph.more_update (\<lambda>l. l @ map (\<lambda>x. (op x, True)) (buffered g)) ?g2))"
    using flushRemoteQueue_applies_in_order [OF flag, of logging_update]
    by (simp add: all and_then_simps)
  have ops: "map (\<lambda>x. (op x, True)) (buffered g) =
          [(deleteRecord, True), (updateRelationship, True), (replaceRelatedRecord, True)]"
    using buf by (auto simp: map_eq_Cons_conv)
  let ?g1 = "finalize' (graph.more_update (\<lambda>l. l @ map (\<lambda>x. (op x, True)) (buffered g)) ?g2)"
  have final: "graph.more ?g1 = [(deleteRecord, True), (updateRelationship, True), (replaceRelatedRecord, True)]
      \<and> pushedUpdates' ?g1 = no_updates \<and> transaction' ?g1 = None \<and> \<not> willSyncRemote' ?g1"
    by (simp add: finalize'_def ops log)
  show ?thesis
    using g flag run final by blast
qed

text \<open>
  C8 (as amended). \<open>remove\<close> raises its assertion exactly when the slot \<open>removing'\<close> is
  occupied, by any identifier, the one to remove included. When the slot is free,
  \<open>remove\<close> runs \<open>unload\<close> with the slot set to the identifier; when \<open>unload\<close> returns,
  the edge table of the identifier is deleted and the slot is free again.
\<close>

theorem remove_guard:
  "(\<forall>r. removing' g = Some r \<longrightarrow>
       remove unload i g =
         Inl (AssertionFailed ''Cannot remove {identifier} while still removing {_removing}'' [i, r]))
   \<and> (removing' g = None \<longrightarrow>
       remove unload i g =
         and_then (unload i (g\<lparr>removing' := Some i\<rparr>))
           (\<lambda>g1. Inr (g1\<lparr>identifiers := (identifiers g1)(i := None), removing' := None\<rparr>)))
   \<and> (\<forall>g1. removing' g = None \<longrightarrow> remove unload i g = Inr g1 \<longrightarrow>
         removing' g1 = None \<and> identifiers g1 i = None)"
  by (auto simp: remove_def and_then_def split: sum.splits)

theorem remove_guard_witness:
  "remove idle_unload (ident ''post'' ''1'') (new_Graph\<lparr>removing' := Some (ident ''post'' ''2'')\<rparr>) =
     Inl (AssertionFailed ''Cannot remove {identifier} while still removing {_removing}''
            [ident ''post'' ''1'', ident ''post'' ''2''])
   \<and> remove idle_unload (ident ''post'' ''1'') new_Graph = Inr new_Graph
   \<and> removing' (new_Graph :: unit graph) = None"
proof -
  have occupied: "removing' ((new_Graph :: unit graph)\<lparr>removing' := Some (ident ''post'' ''2'')\<rparr>)
                    = Some (ident ''post'' ''2'')"
    by simp
  have free: "removing' (new_Graph :: unit graph) = None"
    by (simp add: new_Graph_def)
  have same: "(new_Graph :: unit graph)\<lparr>removing' := Some (ident ''post'' ''1'')\<rparr>
                \<lparr>identifiers := (identifiers (new_Graph\<lparr>removing' := Some (ident ''post'' ''1'')\<rparr>))
                   (ident ''post'' ''1'' := None), removing' := None\<rparr> = new_Graph"
    by (simp add: new_Graph_def)
  show ?thesis
    using remove_guard [of "new_Graph\<lparr>removing' := Some (ident ''post'' ''2'')\<rparr>" idle_unload "ident ''post'' ''1''"]
      remove_guard [of new_Graph idle_unload "ident ''post'' ''1''"]
      occupied free same
    by (simp add: idle_unload_def and_then_def)
qed

text \<open>
  The claim C8 as it stands fails for a remove of the identifier that is being
  removed: the slot is occupied by the same identifier, no other remove is in
  progress, and the assertion is raised. So is it when \<open>unload\<close> calls \<open>remove\<close> for
  the identifier again.
\<close>

theorem remove_same_identifier_counterexample:
  "remove idle_unload (ident ''post'' ''1'') (new_Graph\<lparr>removing' := Some (ident ''post'' ''1'')\<rparr>) =
     Inl (AssertionFailed ''Cannot remove {identifier} while still removing {_removing}''
            [ident ''post'' ''1'', ident ''post'' ''1''])
   \<and> remove (reentrant_unload (ident ''post'' ''1'')) (ident ''post'' ''1'') new_Graph =
     Inl (AssertionFailed ''Cannot remove {identifier} while still removing {_removing}''
            [ident ''post'' ''1'', ident ''post'' ''1''])"
  by (simp add: remove_def reentrant_unload_def idle_unload_def new_Graph_def and_then_def)

end
